theory Spec2Isabelle
  imports Complex_Main "HOL-Library.Word"
begin

unbundle bit_operations_syntax

section \<open>Exceptions as values\<close>

text \<open>
  The extractor (\<^verbatim>\<open>tank_viewer/havok/model_extractor.py\<close>) has no \<^verbatim>\<open>try\<close>, no
  \<^verbatim>\<open>raise\<close> and no exception class of its own: whatever fails, fails with the
  exception Python or NumPy raises at that point. These are the first seven
  constructors. \<open>MalformedTag\<close> and \<open>CorruptGeometry\<close> are the two error kinds
  the specification names; they are part of the type so that statements about
  them can be written down, and no function below ever builds one of them.
\<close>

datatype error =
    KeyError string
  | IndexError
  | TypeError
  | AttributeError
  | ValueError
  | OverflowError
  | AssertionError
  | MalformedTag string
  | CorruptGeometry

definition bindE :: "error + 'a \<Rightarrow> ('a \<Rightarrow> error + 'b) \<Rightarrow> error + 'b" where
  "bindE m f = (case m of Inl e \<Rightarrow> Inl e | Inr v \<Rightarrow> f v)"

fun mapE :: "('a \<Rightarrow> error + 'b) \<Rightarrow> 'a list \<Rightarrow> error + 'b list" where
  "mapE f [] = Inr []"
| "mapE f (x # xs) = bindE (f x) (\<lambda>y. bindE (mapE f xs) (\<lambda>ys. Inr (y # ys)))"

fun foldE :: "('s \<Rightarrow> 'a \<Rightarrow> error + 's) \<Rightarrow> 's \<Rightarrow> 'a list \<Rightarrow> error + 's" where
  "foldE f s [] = Inr s"
| "foldE f s (x # xs) = bindE (f s x) (\<lambda>s'. foldE f s' xs)"

section \<open>The tag object tree\<close>

text \<open>
  Modelled from the spec: the module \<^verbatim>\<open>tag_tools\<close> (\<^verbatim>\<open>TagObject\<close>, \<^verbatim>\<open>TagReader\<close>,
  \<^verbatim>\<open>TagFileType\<close>) is imported by the extractor but is not among the sources. The
  specification describes its product as a tree whose nodes are mappings from
  byte-string keys to nodes, ordered sequences of nodes, or scalars (integer,
  float, string). The extractor reads a node \<open>x\<close> only through \<^verbatim>\<open>x.value\<close>, which
  here is \<open>tvalue x\<close>; at some places it reads \<^verbatim>\<open>x.value.value\<close>, so the value
  of a node may itself be a node (\<open>Obj\<close>).
\<close>

datatype TagObject = TagObject (tvalue: payload)
and payload =
    Dict "(string \<times> TagObject) list"
  | Seq "TagObject list"
  | Obj TagObject
  | IntV int
  | FloatV real
  | StrV string

text \<open>
  Modelled from the spec: \<^verbatim>\<open>TagFileType\<close> is an enumeration of \<^verbatim>\<open>tag_tools\<close>; the
  extractor names its member \<^verbatim>\<open>Object\<close> only, and every other member is
  \<open>OtherFileType\<close>. A byte stream is represented by what the two calls
  \<^verbatim>\<open>TagReader.checkIO(f)\<close> and \<^verbatim>\<open>TagReader.fromIO(f)\<close> return for it.
\<close>

datatype TagFileType = Object | OtherFileType

record tag_stream =
  checkIO :: "error + TagFileType"
  fromIO :: "error + TagObject"

subsection \<open>Python operations on values\<close>

text \<open>\<^verbatim>\<open>p[b'key']\<close>: only a mapping can be subscripted with a byte string.\<close>

fun getitem :: "payload \<Rightarrow> string \<Rightarrow> error + TagObject" where
  "getitem (Dict kv) k = (case map_of kv k of None \<Rightarrow> Inl (KeyError k) | Some t \<Rightarrow> Inr t)"
| "getitem _ k = Inl TypeError"

text \<open>\<^verbatim>\<open>p.value\<close> for a value \<open>p\<close> that was itself read with \<^verbatim>\<open>.value\<close>.\<close>

fun attr_value :: "payload \<Rightarrow> error + payload" where
  "attr_value (Obj t) = Inr (tvalue t)"
| "attr_value _ = Inl AttributeError"

text \<open>
  \<^verbatim>\<open>for x in p\<close> where the loop at once reads \<^verbatim>\<open>x.value\<close>: a sequence yields its
  nodes; a mapping or a string yields keys or characters, which have no
  \<^verbatim>\<open>value\<close>, unless it is empty; nothing else can be iterated.
\<close>

fun elements :: "payload \<Rightarrow> error + TagObject list" where
  "elements (Seq xs) = Inr xs"
| "elements (Dict kv) = (if kv = [] then Inr [] else Inl AttributeError)"
| "elements (StrV s) = (if s = [] then Inr [] else Inl AttributeError)"
| "elements _ = Inl TypeError"

text \<open>\<^verbatim>\<open>p[:3]\<close>.\<close>

fun slice3 :: "payload \<Rightarrow> error + payload" where
  "slice3 (Seq xs) = Inr (Seq (take 3 xs))"
| "slice3 (StrV s) = Inr (StrV (take 3 s))"
| "slice3 _ = Inl TypeError"

text \<open>\<^verbatim>\<open>p[0]\<close>; a mapping has byte-string keys only, so the key \<^verbatim>\<open>0\<close> is missing.\<close>

fun getitem0 :: "payload \<Rightarrow> error + TagObject" where
  "getitem0 (Seq xs) = (case xs of [] \<Rightarrow> Inl IndexError | x # _ \<Rightarrow> Inr x)"
| "getitem0 (Dict kv) = Inl (KeyError ''0'')"
| "getitem0 (StrV s) = (case s of [] \<Rightarrow> Inl IndexError | _ # _ \<Rightarrow> Inl AttributeError)"
| "getitem0 _ = Inl TypeError"

text \<open>\<^verbatim>\<open>len(p)\<close>.\<close>

fun len :: "payload \<Rightarrow> error + nat" where
  "len (Seq xs) = Inr (length xs)"
| "len (Dict kv) = Inr (length kv)"
| "len (StrV s) = Inr (length s)"
| "len _ = Inl TypeError"

text \<open>\<^verbatim>\<open>b'key' in p\<close>; no node of a sequence equals a byte string.\<close>

fun contains :: "string \<Rightarrow> payload \<Rightarrow> error + bool" where
  "contains k (Dict kv) = Inr (k \<in> set (map fst kv))"
| "contains k (Seq xs) = Inr False"
| "contains k _ = Inl TypeError"

subsection \<open>Scalars in NumPy arrays\<close>

text \<open>
  The arrays are built with \<^verbatim>\<open>np.array(values, dtype=...)\<close> from scalars of the
  tree. An integer that does not fit the dtype is an \<^verbatim>\<open>OverflowError\<close> (NumPy 2).
  A float array takes floats and integers. Every other combination (a float in
  an integer array, a string, a nested value) is rejected here with
  \<^verbatim>\<open>TypeError\<close> or \<^verbatim>\<open>ValueError\<close>, although NumPy would truncate or parse some of
  them; the results below are about well-typed scalars. A value read as a
  Python integer and used in arithmetic or slicing is treated alike.
\<close>

fun as_float :: "payload \<Rightarrow> error + real" where
  "as_float (FloatV r) = Inr r"
| "as_float (IntV i) = Inr (of_int i)"
| "as_float (StrV s) = Inl ValueError"
| "as_float (Seq xs) = Inl ValueError"
| "as_float _ = Inl TypeError"

fun as_uint32 :: "payload \<Rightarrow> error + 32 word" where
  "as_uint32 (IntV i) = (if 0 \<le> i \<and> i < 2 ^ 32 then Inr (word_of_int i) else Inl OverflowError)"
| "as_uint32 _ = Inl TypeError"

fun as_uint64 :: "payload \<Rightarrow> error + 64 word" where
  "as_uint64 (IntV i) = (if 0 \<le> i \<and> i < 2 ^ 64 then Inr (word_of_int i) else Inl OverflowError)"
| "as_uint64 _ = Inl TypeError"

definition fits_int64 :: "int \<Rightarrow> bool" where
  "fits_int64 i = (- (2 ^ 63) \<le> i \<and> i < 2 ^ 63)"

fun as_int64 :: "payload \<Rightarrow> error + int" where
  "as_int64 (IntV i) = (if fits_int64 i then Inr i else Inl OverflowError)"
| "as_int64 _ = Inl TypeError"

fun as_int :: "payload \<Rightarrow> error + int" where
  "as_int (IntV i) = Inr i"
| "as_int _ = Inl TypeError"

text \<open>\<^verbatim>\<open>[x.value for x in p]\<close>.\<close>

definition values_of :: "payload \<Rightarrow> error + payload list" where
  "values_of p = bindE (elements p) (\<lambda>xs. Inr (map tvalue xs))"

section \<open>Vertex codec\<close>

text \<open>
  A \<^verbatim>\<open>float32\<close> value is modelled as the real number it denotes. A \<^verbatim>\<open>Vec3f\<close>
  argument is a list of reals, because the constructors build it from however
  many tag values the file holds; NumPy broadcasts such a vector against the
  three columns of the vertex array when it has one or three entries and raises
  \<^verbatim>\<open>ValueError\<close> otherwise.

  \<^verbatim>\<open>unpack_packed_vertices\<close> ends with \<^verbatim>\<open>np.clip\<close>, which returns one of its three
  arguments; the affine map before it is modelled in exact arithmetic.
  \<^verbatim>\<open>unpack_shared_vertices\<close> has no clamp, and what it returns depends on the
  rounding of each of its steps: there every NumPy operation is followed by the
  rounding of its result type. The bounds it is given are \<^verbatim>\<open>float32\<close> arrays in
  the source; a statement that depends on this says so of its bounds.
\<close>

subsection \<open>Rounding\<close>

text \<open>
  IEEE 754 rounds to the nearest representable number, and to the one with an
  even significand when two are equally near. \<open>round_even\<close> is that rule on
  the integers.
\<close>

definition round_even :: "real \<Rightarrow> int" where
  "round_even x =
     (let n = \<lfloor>x\<rfloor> in
      if x - of_int n < 1 / 2 then n
      else if 1 / 2 < x - of_int n then n + 1
      else if even n then n else n + 1)"

text \<open>
  A binary format with \<open>p\<close> significand bits and least positive number \<open>q\<close>
  holds the multiples \<open>m * s\<close> of a spacing \<open>s\<close> with \<open>\<bar>m\<bar> < 2 ^ p\<close>. The
  spacing at magnitude \<open>a\<close> is \<open>q\<close> below \<open>2 ^ p * q\<close> (the subnormal numbers and
  the first binade) and doubles with every binade above.
\<close>

function spacing :: "nat \<Rightarrow> real \<Rightarrow> real \<Rightarrow> real" where
  "spacing p q a = (if 0 < q \<and> 2 ^ p * q \<le> a then spacing p (2 * q) a else q)"
  by auto
termination
proof (relation "measure (\<lambda>(p, q, a). nat \<lfloor>a / (2 ^ p * q)\<rfloor>)")
  show "wf (measure (\<lambda>(p, q, a). nat \<lfloor>a / (2 ^ p * q)\<rfloor>))" by simp
next
  fix p :: nat and q a :: real
  assume h: "0 < q \<and> 2 ^ p * q \<le> a"
  define r where "r = a / (2 ^ p * q)"
  have pos: "0 < 2 ^ p * q" using h by simp
  have r1: "1 \<le> r" using h pos by (simp add: r_def field_simps)
  have eq: "a / (2 ^ p * (2 * q)) = r / 2" by (simp add: r_def)
  have "\<lfloor>r / 2\<rfloor> < \<lfloor>r\<rfloor>"
  proof -
    have "1 \<le> \<lfloor>r\<rfloor>" using r1 by linarith
    then have "\<lfloor>r\<rfloor> div 2 < \<lfloor>r\<rfloor>" by linarith
    moreover have "\<lfloor>r / real_of_int 2\<rfloor> = \<lfloor>r\<rfloor> div 2"
      by (rule floor_divide_real_eq_div) simp
    ultimately show ?thesis by simp
  qed
  moreover have "0 \<le> \<lfloor>r\<rfloor>" using r1 by linarith
  ultimately show "((p, 2 * q, a), (p, q, a)) \<in> measure (\<lambda>(p, q, a). nat \<lfloor>a / (2 ^ p * q)\<rfloor>)"
    using r1 by (simp add: eq r_def [symmetric])
qed

declare spacing.simps [simp del]

definition round_float :: "nat \<Rightarrow> real \<Rightarrow> real \<Rightarrow> real" where
  "round_float p q x = of_int (round_even (x / spacing p q \<bar>x\<bar>)) * spacing p q \<bar>x\<bar>"

text \<open>
  \<^verbatim>\<open>float32\<close> has 24 significand bits and least positive number \<open>2 ^ -149\<close>,
  \<^verbatim>\<open>float64\<close> has 53 and \<open>2 ^ -1074\<close>. The exponent is not bounded above here:
  a result that the hardware would store as infinity (of magnitude above
  \<open>float32_max\<close> after rounding) is rounded like any other, and nothing is NaN.
  The statements about rounded results say that no operation leaves the finite
  range.
\<close>

definition float32 :: "real \<Rightarrow> real" where
  "float32 x = round_float 24 (1 / 2 ^ 149) x"

definition float64 :: "real \<Rightarrow> real" where
  "float64 x = round_float 53 (1 / 2 ^ 1074) x"

definition float32_max :: real where
  "float32_max = (2 ^ 24 - 1) * 2 ^ 104"

subsection \<open>The two decoders\<close>

type_synonym vec3 = "real \<times> real \<times> real"

fun broadcast3 :: "real list \<Rightarrow> error + vec3" where
  "broadcast3 [a] = Inr (a, a, a)"
| "broadcast3 [a, b, c] = Inr (a, b, c)"
| "broadcast3 _ = Inl ValueError"

record CodecParams =
  min_xyz :: "real list"
  scale_xyz :: "real list"

text \<open>\<^verbatim>\<open>np.clip(x, lo, hi)\<close> is \<^verbatim>\<open>minimum(maximum(x, lo), hi)\<close>.\<close>

definition clip :: "real \<Rightarrow> real \<Rightarrow> real \<Rightarrow> real" where
  "clip x lo hi = min (max x lo) hi"

text \<open>
  The three bit fields of a packed value, in the order of the columns
  \<^verbatim>\<open>res[:, 0]\<close>, \<^verbatim>\<open>res[:, 1]\<close>, \<^verbatim>\<open>res[:, 2]\<close>. In Python \<^verbatim>\<open>>>\<close> binds tighter than
  \<^verbatim>\<open>&\<close>, so \<^verbatim>\<open>packed >> 22 & 0x3FF\<close> is \<^verbatim>\<open>(packed >> 22) & 0x3FF\<close>.
\<close>

definition packed_fields :: "32 word \<Rightarrow> 32 word \<times> 32 word \<times> 32 word" where
  "packed_fields p = (p AND 0x7FF, drop_bit 11 p AND 0x7FF, drop_bit 22 p AND 0x3FF)"

definition decode_packed :: "vec3 \<Rightarrow> vec3 \<Rightarrow> vec3 \<Rightarrow> vec3 \<Rightarrow> 32 word \<Rightarrow> vec3" where
  "decode_packed scale mn lo hi p =
     (case (packed_fields p, scale, mn, lo, hi) of
        ((x, y, z), (sx, sy, sz), (mx, my, mz), (lx, ly, lz), (hx, hy, hz)) \<Rightarrow>
          (clip (real (unat x) * sx + mx) lx hx,
           clip (real (unat y) * sy + my) ly hy,
           clip (real (unat z) * sz + mz) lz hz))"

definition unpack_packed_vertices ::
  "32 word list \<Rightarrow> CodecParams \<Rightarrow> real list \<Rightarrow> real list \<Rightarrow> error + vec3 list" where
  "unpack_packed_vertices packed codec sec_domain_min sec_domain_max =
     bindE (broadcast3 (scale_xyz codec)) (\<lambda>scale.
     bindE (broadcast3 (min_xyz codec)) (\<lambda>mn.
     bindE (broadcast3 sec_domain_min) (\<lambda>lo.
     bindE (broadcast3 sec_domain_max) (\<lambda>hi.
       Inr (map (decode_packed scale mn lo hi) packed)))))"

definition shared_fields :: "64 word \<Rightarrow> 64 word \<times> 64 word \<times> 64 word" where
  "shared_fields s = (s AND 0x1FFFFF, drop_bit 21 s AND 0x1FFFFF, drop_bit 42 s AND 0x3FFFFF)"

text \<open>
  \<^verbatim>\<open>(shared & 0x1FFFFF) / 0x1FFFFF\<close> divides a \<^verbatim>\<open>uint64\<close> array by a Python
  integer: NumPy computes the quotient in \<^verbatim>\<open>float64\<close>, and the assignment to a
  column of the \<^verbatim>\<open>float32\<close> array \<^verbatim>\<open>res\<close> rounds it a second time.
\<close>

definition shared_fracs :: "64 word \<Rightarrow> vec3" where
  "shared_fracs s =
     (case shared_fields s of
        (x, y, z) \<Rightarrow>
          (float32 (float64 (real (unat x) / 0x1FFFFF)),
           float32 (float64 (real (unat y) / 0x1FFFFF)),
           float32 (float64 (real (unat z) / 0x3FFFFF))))"

text \<open>
  \<^verbatim>\<open>res *= domain_max - domain_min\<close> subtracts two \<^verbatim>\<open>float32\<close> arrays, which
  rounds the difference, and multiplies \<^verbatim>\<open>res\<close> by it in place, which rounds
  the product; \<^verbatim>\<open>res += domain_min\<close> rounds the sum.
\<close>

definition decode_shared :: "vec3 \<Rightarrow> vec3 \<Rightarrow> 64 word \<Rightarrow> vec3" where
  "decode_shared lo hi s =
     (case (shared_fracs s, lo, hi) of
        ((fx, fy, fz), (lx, ly, lz), (hx, hy, hz)) \<Rightarrow>
          (float32 (float32 (fx * float32 (hx - lx)) + lx),
           float32 (float32 (fy * float32 (hy - ly)) + ly),
           float32 (float32 (fz * float32 (hz - lz)) + lz)))"

text \<open>
  \<^verbatim>\<open>res *= domain_max - domain_min\<close> and \<^verbatim>\<open>res += domain_min\<close> broadcast the two
  bounds against each other and against the three columns. Both steps go through
  exactly when each bound has one or three entries, which is what the two
  \<open>broadcast3\<close> calls check.
\<close>

definition unpack_shared_vertices ::
  "64 word list \<Rightarrow> real list \<Rightarrow> real list \<Rightarrow> error + vec3 list" where
  "unpack_shared_vertices shared domain_min domain_max =
     bindE (broadcast3 domain_max) (\<lambda>hi.
     bindE (broadcast3 domain_min) (\<lambda>lo.
       Inr (map (decode_shared lo hi) shared)))"

section \<open>Section resolver\<close>

text \<open>
  \<^verbatim>\<open>HavokSection.__init__\<close> converts the two domain vectors and the codec
  parameters to \<^verbatim>\<open>float32\<close> arrays and stores the seven remaining entries as it
  finds them: \<^verbatim>\<open>self.numPackedVertices = section[b'numPackedVertices'].value\<close>
  checks nothing about the value.
\<close>

record HavokSection =
  domain_min :: "real list"
  domain_max :: "real list"
  codec_params :: CodecParams
  firstPackedVertexIndex :: payload
  firstSharedVertexIndex :: payload
  firstPrimitiveIndex :: payload
  numPackedVertices :: payload
  numPrimitives :: payload
  firstDataRunIndex :: payload
  numDataRuns :: payload

text \<open>
  \<^verbatim>\<open>np.array([x.value for x in tree[b'domain'].value[key].value[:3]], dtype=np.float32)\<close>,
  the expression both constructors use for \<^verbatim>\<open>domain_min\<close> and \<^verbatim>\<open>domain_max\<close>.
\<close>

definition domain_vector :: "payload \<Rightarrow> string \<Rightarrow> error + real list" where
  "domain_vector tree key =
     bindE (getitem tree ''domain'') (\<lambda>d.
     bindE (getitem (tvalue d) key) (\<lambda>m.
     bindE (slice3 (tvalue m)) (\<lambda>s.
     bindE (values_of s) (\<lambda>vs.
       mapE as_float vs))))"

definition scalar_field :: "payload \<Rightarrow> string \<Rightarrow> error + payload" where
  "scalar_field section key = bindE (getitem section key) (\<lambda>t. Inr (tvalue t))"

definition HavokSection_init :: "payload \<Rightarrow> error + HavokSection" where
  "HavokSection_init section =
     bindE (domain_vector section ''min'') (\<lambda>dmin.
     bindE (domain_vector section ''max'') (\<lambda>dmax.
     bindE (getitem section ''codecParms'') (\<lambda>cp.
     bindE (values_of (tvalue cp)) (\<lambda>codec_values.
     bindE (mapE as_float (take 3 codec_values)) (\<lambda>mn.
     bindE (mapE as_float (take 3 (drop 3 codec_values))) (\<lambda>sc.
     bindE (scalar_field section ''firstPackedVertexIndex'') (\<lambda>fpv.
     bindE (scalar_field section ''firstSharedVertexIndex'') (\<lambda>fsv.
     bindE (scalar_field section ''firstPrimitiveIndex'') (\<lambda>fpr.
     bindE (scalar_field section ''numPackedVertices'') (\<lambda>npv.
     bindE (scalar_field section ''numPrimitives'') (\<lambda>npr.
     bindE (scalar_field section ''firstDataRunIndex'') (\<lambda>fdr.
     bindE (scalar_field section ''numDataRuns'') (\<lambda>ndr.
       Inr \<lparr>domain_min = dmin, domain_max = dmax,
            codec_params = \<lparr>min_xyz = mn, scale_xyz = sc\<rparr>,
            firstPackedVertexIndex = fpv, firstSharedVertexIndex = fsv,
            firstPrimitiveIndex = fpr, numPackedVertices = npv,
            numPrimitives = npr, firstDataRunIndex = fdr,
            numDataRuns = ndr\<rparr>)))))))))))))"

section \<open>Geometry builder\<close>

subsection \<open>Slices\<close>

text \<open>
  \<^verbatim>\<open>a[start:stop]\<close> on an array of \<open>n\<close> rows: a negative bound counts from the
  end, and both bounds are clipped to \<open>0 .. n\<close>. The slice is empty when the
  clipped stop is not above the clipped start.
\<close>

definition clip_index :: "nat \<Rightarrow> int \<Rightarrow> nat" where
  "clip_index n i = (if i < 0 then nat (max (i + int n) 0) else min (nat i) n)"

definition py_slice :: "'a list \<Rightarrow> int \<Rightarrow> int \<Rightarrow> 'a list" where
  "py_slice xs start stop =
     take (clip_index (length xs) stop - clip_index (length xs) start)
          (drop (clip_index (length xs) start) xs)"

text \<open>
  \<^verbatim>\<open>a[start:stop] = src\<close>: the rows of \<^verbatim>\<open>src\<close> must be as many as the slice has,
  or exactly one, which is then broadcast to every row of the slice.
\<close>

definition assign_slice :: "'a list \<Rightarrow> int \<Rightarrow> int \<Rightarrow> 'a list \<Rightarrow> error + 'a list" where
  "assign_slice xs start stop src =
     (let lo = clip_index (length xs) start;
          t = clip_index (length xs) stop - lo
      in if length src = t then Inr (take lo xs @ src @ drop (lo + t) xs)
         else if length src = 1 then Inr (take lo xs @ replicate t (hd src) @ drop (lo + t) xs)
         else Inl ValueError)"

text \<open>
  \<^verbatim>\<open>table[k]\<close> for one entry \<open>k\<close> of an integer index array: negative indices
  count from the end, anything outside is an \<^verbatim>\<open>IndexError\<close>.
\<close>

definition index_array :: "'a list \<Rightarrow> int \<Rightarrow> error + 'a" where
  "index_array table k =
     (if 0 \<le> k \<and> k < int (length table) then Inr (table ! nat k)
      else if - int (length table) \<le> k \<and> k < 0 then Inr (table ! nat (k + int (length table)))
      else Inl IndexError)"

subsection \<open>Fixed-width arithmetic\<close>

text \<open>
  \<^verbatim>\<open>primitives\<close> is an \<^verbatim>\<open>int64\<close> array; its entries are kept as integers in
  the \<^verbatim>\<open>int64\<close> range, and every sum or difference NumPy forms on them wraps
  around.
\<close>

definition wrap_int64 :: "int \<Rightarrow> int" where
  "wrap_int64 i = (i + 2 ^ 63) mod 2 ^ 64 - 2 ^ 63"

text \<open>
  \<^verbatim>\<open>self.packedVertices.size + self.sharedVerticesIndex[...]\<close> adds a Python
  integer to a \<^verbatim>\<open>uint32\<close> array: the result is a \<^verbatim>\<open>uint32\<close> array, so the sum is
  taken modulo \<open>2 ^ 32\<close>.
\<close>

definition add_uint32 :: "nat \<Rightarrow> 32 word \<Rightarrow> int" where
  "add_uint32 n w = int ((n + unat w) mod 2 ^ 32)"

subsection \<open>Reading the mesh tree\<close>

record HavokGeometry =
  name :: payload
  domain_min :: "real list"
  domain_max :: "real list"
  primitives :: "int list list"
  sharedVertices :: "64 word list"
  sharedVerticesIndex :: "32 word list"
  packedVertices :: "32 word list"
  sections :: "HavokSection list"
  verts :: "vec3 option list"

text \<open>
  \<open>verts\<close> starts as \<^verbatim>\<open>np.empty\<close>, whose rows hold whatever the memory held:
  a row nobody has written yet is \<open>None\<close>.

  \<^verbatim>\<open>np.stack\<close> needs at least one row and rows of one length. It infers
  \<^verbatim>\<open>int64\<close> for rows of Python integers in that range; a row with any other
  entry is rejected here.
\<close>

definition primitive_rows :: "payload \<Rightarrow> error + payload list list" where
  "primitive_rows meshTree =
     bindE (getitem meshTree ''primitives'') (\<lambda>p.
     bindE (elements (tvalue p)) (\<lambda>xs.
       mapE (\<lambda>x. bindE (getitem (tvalue x) ''indices'') (\<lambda>t. values_of (tvalue t))) xs))"

definition np_stack :: "payload list list \<Rightarrow> error + int list list" where
  "np_stack rows =
     (if rows = [] then Inl ValueError
      else bindE (mapE (mapE as_int64) rows) (\<lambda>rs.
        if list_all (\<lambda>r. length r = length (hd rs)) rs then Inr rs else Inl ValueError))"

definition uint32_array :: "payload \<Rightarrow> string \<Rightarrow> error + 32 word list" where
  "uint32_array meshTree key =
     bindE (getitem meshTree key) (\<lambda>t. bindE (values_of (tvalue t)) (mapE as_uint32))"

definition uint64_array :: "payload \<Rightarrow> string \<Rightarrow> error + 64 word list" where
  "uint64_array meshTree key =
     bindE (getitem meshTree key) (\<lambda>t. bindE (values_of (tvalue t)) (mapE as_uint64))"

definition read_sections :: "payload \<Rightarrow> error + HavokSection list" where
  "read_sections meshTree =
     bindE (getitem meshTree ''sections'') (\<lambda>t.
     bindE (elements (tvalue t)) (\<lambda>secs.
       mapE (\<lambda>sec. HavokSection_init (tvalue sec)) secs))"

subsection \<open>One pass of the section loop\<close>

text \<open>
  Lines 133 to 140: the section's packed vertices are decoded into the rows
  \<^verbatim>\<open>verts[first : first + num]\<close>, when \<^verbatim>\<open>numPackedVertices > 0\<close>.
\<close>

definition decode_section ::
  "32 word list \<Rightarrow> vec3 option list \<Rightarrow> HavokSection \<Rightarrow> error + vec3 option list" where
  "decode_section packed vs sec =
     bindE (as_int (numPackedVertices sec)) (\<lambda>n.
       if 0 < n then
         bindE (as_int (firstPackedVertexIndex sec)) (\<lambda>f.
         bindE (unpack_packed_vertices (py_slice packed f (f + n)) (codec_params sec)
                  (HavokSection.domain_min sec) (HavokSection.domain_max sec)) (\<lambda>dec.
           assign_slice vs f (f + n) (map Some dec)))
       else Inr vs)"

text \<open>
  Lines 142 to 147. \<^verbatim>\<open>mask\<close> and \<^verbatim>\<open>shared_indices\<close> are computed from the raw
  slice before anything is written. An entry \<open>v\<close> under the mask is looked up
  in \<^verbatim>\<open>sharedVerticesIndex\<close> at \<^verbatim>\<open>firstSharedVertexIndex + (v - numPackedVertices)\<close>;
  \<open>lookup_shared\<close> returns the entry with the table value found, or with
  \<open>None\<close> when the entry is not under the mask. \<open>rewrite_entry\<close> is the value
  then stored: the two assignments of lines 146 and 147.
\<close>

definition lookup_shared ::
  "32 word list \<Rightarrow> int \<Rightarrow> int \<Rightarrow> int \<Rightarrow> error + int \<times> 32 word option" where
  "lookup_shared svi n fs v =
     (if n \<le> v
      then bindE (index_array svi (wrap_int64 (fs + wrap_int64 (v - n)))) (\<lambda>w. Inr (v, Some w))
      else Inr (v, None))"

definition rewrite_entry :: "nat \<Rightarrow> int \<Rightarrow> int \<times> 32 word option \<Rightarrow> int" where
  "rewrite_entry P f e =
     (case e of (v, Some w) \<Rightarrow> add_uint32 P w | (v, None) \<Rightarrow> wrap_int64 (v + f))"

text \<open>
  NumPy 2 raises \<^verbatim>\<open>OverflowError\<close> when a Python integer operand does not fit the
  dtype of the array it is combined with: \<^verbatim>\<open>numPackedVertices\<close>,
  \<^verbatim>\<open>firstSharedVertexIndex\<close> and \<^verbatim>\<open>firstPackedVertexIndex\<close> against \<^verbatim>\<open>int64\<close>,
  \<^verbatim>\<open>packedVertices.size\<close> against \<^verbatim>\<open>uint32\<close>. \<open>P\<close> is \<^verbatim>\<open>self.packedVertices.size\<close>.
  The rows outside the slice stay as they are: \<^verbatim>\<open>prim_slice\<close> is a view.
\<close>

definition resolve_section ::
  "nat \<Rightarrow> 32 word list \<Rightarrow> int list list \<Rightarrow> HavokSection \<Rightarrow> error + int list list" where
  "resolve_section P svi prims sec =
     bindE (as_int (firstPrimitiveIndex sec)) (\<lambda>fp.
     bindE (as_int (numPrimitives sec)) (\<lambda>np.
     bindE (as_int (numPackedVertices sec)) (\<lambda>n.
       if \<not> fits_int64 n then Inl OverflowError else
     bindE (as_int (firstSharedVertexIndex sec)) (\<lambda>fs.
       if \<not> fits_int64 fs then Inl OverflowError else
     bindE (mapE (mapE (lookup_shared svi n fs)) (py_slice prims fp (fp + np))) (\<lambda>looked.
       if \<not> P < 2 ^ 32 then Inl OverflowError else
     bindE (as_int (firstPackedVertexIndex sec)) (\<lambda>f.
       if \<not> fits_int64 f then Inl OverflowError else
       Inr (take (clip_index (length prims) fp) prims
            @ map (map (rewrite_entry P f)) looked
            @ drop (clip_index (length prims) fp + length looked) prims)))))))"

definition section_step ::
  "32 word list \<Rightarrow> 32 word list \<Rightarrow> vec3 option list \<times> int list list \<Rightarrow> HavokSection
     \<Rightarrow> error + vec3 option list \<times> int list list" where
  "section_step packed svi st sec =
     bindE (decode_section packed (fst st) sec) (\<lambda>vs.
     bindE (resolve_section (length packed) svi (snd st) sec) (\<lambda>prims.
       Inr (vs, prims)))"

subsection \<open>The constructor\<close>

text \<open>
  \<^verbatim>\<open>self.verts[self.packedVertices.size:] = unpack_shared_vertices(...)\<close> writes as
  many rows as there are shared vertices into a slice of just that many rows.
\<close>

definition HavokGeometry_init :: "payload \<Rightarrow> payload \<Rightarrow> error + HavokGeometry" where
  "HavokGeometry_init nm meshTree =
     bindE (domain_vector meshTree ''min'') (\<lambda>dmin.
     bindE (domain_vector meshTree ''max'') (\<lambda>dmax.
     bindE (primitive_rows meshTree) (\<lambda>rows.
     bindE (np_stack rows) (\<lambda>prims.
     bindE (uint32_array meshTree ''sharedVerticesIndex'') (\<lambda>svi.
     bindE (read_sections meshTree) (\<lambda>secs.
     bindE (uint64_array meshTree ''sharedVertices'') (\<lambda>shared.
     bindE (uint32_array meshTree ''packedVertices'') (\<lambda>packed.
     bindE (unpack_shared_vertices shared dmin dmax) (\<lambda>sv.
     bindE (foldE (section_step packed svi)
              (replicate (length packed) None @ map Some sv, prims) secs) (\<lambda>st.
       Inr \<lparr>name = nm, domain_min = dmin, domain_max = dmax, primitives = snd st,
            sharedVertices = shared, sharedVerticesIndex = svi, packedVertices = packed,
            sections = secs, verts = fst st\<rparr>))))))))))"

section \<open>Triangulator\<close>

text \<open>
  \<^verbatim>\<open>primitives[:, [0, 1, 2, 0, 2, 3]].reshape(-1, 3)\<close> reads columns 0 to 3 of
  every row (\<^verbatim>\<open>IndexError\<close> when the rows are shorter) and lays the two
  triangles of each row out one after the other; \<^verbatim>\<open>_tris[~dupes]\<close> keeps the
  rows whose three entries are pairwise different, in order.
\<close>

definition fan :: "'a list \<Rightarrow> 'a list list" where
  "fan row = [[row ! 0, row ! 1, row ! 2], [row ! 0, row ! 2, row ! 3]]"

definition dupes :: "'a list \<Rightarrow> bool" where
  "dupes t = (t ! 0 = t ! 1 \<or> t ! 1 = t ! 2 \<or> t ! 0 = t ! 2)"

definition tris :: "HavokGeometry \<Rightarrow> error + int list list" where
  "tris self =
     (if list_all (\<lambda>row. 4 \<le> length row) (primitives self)
      then Inr (filter (\<lambda>t. \<not> dupes t) (concat (map fan (primitives self))))
      else Inl IndexError)"

section \<open>Extractor\<close>

text \<open>
  The body of the inner loop, lines 174 to 181, for one entry of \<^verbatim>\<open>bodyCinfos\<close>;
  \<open>out\<close> is the list built so far.
\<close>

definition extract_body :: "HavokGeometry list \<Rightarrow> TagObject \<Rightarrow> error + HavokGeometry list" where
  "extract_body out subSubVal =
     bindE (getitem (tvalue subSubVal) ''shape'') (\<lambda>sh.
     bindE (attr_value (tvalue sh)) (\<lambda>shape.
     bindE (contains ''data'' shape) (\<lambda>has_data.
       if has_data then
         bindE (getitem (tvalue subSubVal) ''name'') (\<lambda>nm.
         bindE (getitem shape ''data'') (\<lambda>d.
         bindE (attr_value (tvalue d)) (\<lambda>data.
         bindE (getitem data ''meshTree'') (\<lambda>mt.
         bindE (HavokGeometry_init (tvalue nm) (tvalue mt)) (\<lambda>g.
           Inr (out @ [g]))))))
       else Inr out)))"

text \<open>The body of the outer loop, lines 169 to 181, for one resource handle.\<close>

definition extract_resource :: "HavokGeometry list \<Rightarrow> TagObject \<Rightarrow> error + HavokGeometry list" where
  "extract_resource out val =
     bindE (attr_value (tvalue val)) (\<lambda>v.
     bindE (getitem v ''name'') (\<lambda>nm.
       if tvalue nm \<noteq> StrV ''Collision Physics Data'' then Inr out
       else
         bindE (getitem v ''variant'') (\<lambda>var.
         bindE (attr_value (tvalue var)) (\<lambda>subVal.
         bindE (contains ''bodyCinfos'' subVal) (\<lambda>has_bodies.
           if has_bodies then
             bindE (getitem subVal ''bodyCinfos'') (\<lambda>bc.
             bindE (elements (tvalue bc)) (\<lambda>bodies.
               foldE extract_body out bodies))
           else Inr out)))))"

text \<open>
  Line 165:
  \<^verbatim>\<open>root_tag.value[b'namedVariants'].value[0].value[b'variant'].value.value[b'resourceHandles'].value\<close>,
  and the nodes the loop \<^verbatim>\<open>for val in vals\<close> then visits.
\<close>

definition resource_handles :: "TagObject \<Rightarrow> error + TagObject list" where
  "resource_handles root_tag =
     bindE (getitem (tvalue root_tag) ''namedVariants'') (\<lambda>nv.
     bindE (getitem0 (tvalue nv)) (\<lambda>first.
     bindE (getitem (tvalue first) ''variant'') (\<lambda>var.
     bindE (attr_value (tvalue var)) (\<lambda>v.
     bindE (getitem v ''resourceHandles'') (\<lambda>rh.
       elements (tvalue rh))))))"

definition read_geoms_from_havok :: "tag_stream \<Rightarrow> error + HavokGeometry list" where
  "read_geoms_from_havok f =
     bindE (checkIO f) (\<lambda>file_type.
       if file_type \<noteq> Object then Inl AssertionError else
     bindE (fromIO f) (\<lambda>root_tag.
     bindE (getitem (tvalue root_tag) ''namedVariants'') (\<lambda>nv.
     bindE (len (tvalue nv)) (\<lambda>n.
       if n \<noteq> 1 then Inl AssertionError else
     bindE (resource_handles root_tag) (\<lambda>vals.
       foldE extract_resource [] vals)))))"

section \<open>Vocabulary of the statements\<close>

text \<open>
  The exceptions Python and NumPy raise, as opposed to the two error kinds of
  the specification; a result that can only fail with one of the former.
\<close>

definition is_python_exception :: "error \<Rightarrow> bool" where
  "is_python_exception e = (case e of MalformedTag p \<Rightarrow> False | CorruptGeometry \<Rightarrow> False | _ \<Rightarrow> True)"

definition only_python :: "error + 'a \<Rightarrow> bool" where
  "only_python r = (case r of Inl e \<Rightarrow> is_python_exception e | Inr v \<Rightarrow> True)"

text \<open>
  A finite \<^verbatim>\<open>float32\<close> value: rounding leaves it as it is, and it is not beyond
  the largest one. The bounds \<open>lo\<close> and \<open>hi\<close> of one axis form a finite domain
  when both are such values and neither \<^verbatim>\<open>hi - lo\<close> nor the image of the largest
  fraction, \<^verbatim>\<open>(hi - lo) + lo\<close>, overflows.
\<close>

definition is_float32 :: "real \<Rightarrow> bool" where
  "is_float32 x = (float32 x = x \<and> \<bar>x\<bar> \<le> float32_max)"

definition finite_domain :: "real \<Rightarrow> real \<Rightarrow> bool" where
  "finite_domain lo hi =
     (is_float32 lo \<and> is_float32 hi \<and> is_float32 (float32 (hi - lo)) \<and>
      is_float32 (float32 (float32 (hi - lo) + lo)))"

text \<open>The keys \<^verbatim>\<open>HavokSection.__init__\<close> subscripts the section mapping with.\<close>

definition section_keys :: "string list" where
  "section_keys =
     [''domain'', ''codecParms'', ''firstPackedVertexIndex'', ''firstSharedVertexIndex'',
      ''firstPrimitiveIndex'', ''numPackedVertices'', ''numPrimitives'',
      ''firstDataRunIndex'', ''numDataRuns'']"

text \<open>
  Section \<open>s\<close> owns index \<open>i\<close> of the packed-vertex array: \<open>i\<close> lies in
  \<open>[firstPackedVertexIndex, firstPackedVertexIndex + numPackedVertices)\<close>.
\<close>

definition owns :: "HavokSection \<Rightarrow> int \<Rightarrow> bool" where
  "owns s i =
     (case (firstPackedVertexIndex s, numPackedVertices s) of
        (IntV f, IntV n) \<Rightarrow> f \<le> i \<and> i < f + n
      | _ \<Rightarrow> False)"

text \<open>The packed-vertex ranges of a list of sections are pairwise disjoint.\<close>

fun disjoint_ranges :: "HavokSection list \<Rightarrow> bool" where
  "disjoint_ranges [] = True"
| "disjoint_ranges (s # ss) =
     ((\<forall>t \<in> set ss. \<forall>i. \<not> (owns s i \<and> owns t i)) \<and> disjoint_ranges ss)"

subsection \<open>What the extractor is to return\<close>

text \<open>
  The words of the specification, read off the tree without any loop: the name
  of a resource entry, the bodies of its \<open>bodyCinfos\<close> sequence, whether a body
  has shape data, and the name and the mesh tree of a body. A part that cannot
  be read is \<open>None\<close> (no bodies, for \<open>resource_bodies\<close>).
\<close>

definition resource_name :: "TagObject \<Rightarrow> payload option" where
  "resource_name val =
     (case bindE (attr_value (tvalue val)) (\<lambda>v. getitem v ''name'') of
        Inr nm \<Rightarrow> Some (tvalue nm)
      | Inl e \<Rightarrow> None)"

definition resource_bodies :: "TagObject \<Rightarrow> TagObject list" where
  "resource_bodies val =
     (case bindE (attr_value (tvalue val)) (\<lambda>v.
           bindE (getitem v ''variant'') (\<lambda>var.
           bindE (attr_value (tvalue var)) (\<lambda>subVal.
           bindE (contains ''bodyCinfos'' subVal) (\<lambda>has_bodies.
             if has_bodies
             then bindE (getitem subVal ''bodyCinfos'') (\<lambda>bc. elements (tvalue bc))
             else Inr [])))) of
        Inr bodies \<Rightarrow> bodies
      | Inl e \<Rightarrow> [])"

definition body_shape :: "TagObject \<Rightarrow> payload option" where
  "body_shape b =
     (case bindE (getitem (tvalue b) ''shape'') (\<lambda>sh. attr_value (tvalue sh)) of
        Inr shape \<Rightarrow> Some shape
      | Inl e \<Rightarrow> None)"

definition has_shape_data :: "TagObject \<Rightarrow> bool" where
  "has_shape_data b =
     (case body_shape b of Some shape \<Rightarrow> contains ''data'' shape = Inr True | None \<Rightarrow> False)"

definition body_name :: "TagObject \<Rightarrow> payload option" where
  "body_name b = (case getitem (tvalue b) ''name'' of Inr nm \<Rightarrow> Some (tvalue nm) | Inl e \<Rightarrow> None)"

definition body_mesh_tree :: "TagObject \<Rightarrow> payload option" where
  "body_mesh_tree b =
     (case body_shape b of
        Some shape \<Rightarrow>
          (case bindE (getitem shape ''data'') (\<lambda>d.
                bindE (attr_value (tvalue d)) (\<lambda>data. getitem data ''meshTree'')) of
             Inr mt \<Rightarrow> Some (tvalue mt)
           | Inl e \<Rightarrow> None)
      | None \<Rightarrow> None)"

text \<open>
  The bodies that qualify: those of the resource entries named
  \<^verbatim>\<open>Collision Physics Data\<close> that have shape data, in the order of the tree.
\<close>

definition qualifying_bodies :: "TagObject list \<Rightarrow> TagObject list" where
  "qualifying_bodies vals =
     filter has_shape_data
       (concat (map resource_bodies
          (filter (\<lambda>val. resource_name val = Some (StrV ''Collision Physics Data'')) vals)))"

text \<open>Geometry \<open>g\<close> is what the constructor makes of the name and the mesh tree of body \<open>b\<close>.\<close>

definition built_from :: "TagObject \<Rightarrow> HavokGeometry \<Rightarrow> bool" where
  "built_from b g =
     (case (body_name b, body_mesh_tree b) of
        (Some nm, Some mt) \<Rightarrow> HavokGeometry_init nm mt = Inr g \<and> name g = nm
      | _ \<Rightarrow> False)"

section \<open>Example inputs\<close>


text \<open>
  The tag-tree node of a well-formed section, as a list of its entries in the
  order the constructor reads them.
\<close>

definition floats :: "real list \<Rightarrow> TagObject" where
  "floats rs = TagObject (Seq (map (\<lambda>r. TagObject (FloatV r)) rs))"

definition ints :: "int list \<Rightarrow> TagObject" where
  "ints ns = TagObject (Seq (map (\<lambda>n. TagObject (IntV n)) ns))"

definition domain_node :: "real list \<Rightarrow> real list \<Rightarrow> TagObject" where
  "domain_node lo hi = TagObject (Dict [(''min'', floats lo), (''max'', floats hi)])"

definition example_section_entries :: "(string \<times> TagObject) list" where
  "example_section_entries =
     [(''domain'', domain_node [0, 0, 0] [1, 1, 1]),
      (''codecParms'', floats [0, 0, 0, 1, 1, 1]),
      (''firstPackedVertexIndex'', TagObject (IntV 0)),
      (''firstSharedVertexIndex'', TagObject (IntV 0)),
      (''firstPrimitiveIndex'', TagObject (IntV 0)),
      (''numPackedVertices'', TagObject (IntV 1)),
      (''numPrimitives'', TagObject (IntV 1)),
      (''firstDataRunIndex'', TagObject (IntV 0)),
      (''numDataRuns'', TagObject (IntV 0))]"

text \<open>
  A mesh tree with one packed vertex, one shared vertex, one section and one
  primitive \<open>(0, 1, 1, 1)\<close>; the indirection table holds the one entry \<open>k\<close>.
  The section is the one above: it owns packed vertex 0 and the primitive.
\<close>

definition example_mesh :: "int \<Rightarrow> payload" where
  "example_mesh k =
     Dict [(''domain'', domain_node [0, 0, 0] [1, 1, 1]),
           (''primitives'', TagObject (Seq [TagObject (Dict [(''indices'', ints [0, 1, 1, 1])])])),
           (''sharedVerticesIndex'', ints [k]),
           (''sections'', TagObject (Seq [TagObject (Dict example_section_entries)])),
           (''sharedVertices'', ints [0x1FFFFF]),
           (''packedVertices'', ints [0])]"

text \<open>The geometry the constructor builds from \<open>example_mesh k\<close>.\<close>

definition example_geometry :: "payload \<Rightarrow> int \<Rightarrow> HavokGeometry" where
  "example_geometry nm k =
     \<lparr>name = nm, domain_min = [0, 0, 0], domain_max = [1, 1, 1],
      primitives = [[0, 1 + k, 1 + k, 1 + k]],
      sharedVertices = [0x1FFFFF], sharedVerticesIndex = [word_of_int k],
      packedVertices = [0],
      sections =
        [\<lparr>HavokSection.domain_min = [0, 0, 0], domain_max = [1, 1, 1],
          codec_params = \<lparr>min_xyz = [0, 0, 0], scale_xyz = [1, 1, 1]\<rparr>,
          firstPackedVertexIndex = IntV 0, firstSharedVertexIndex = IntV 0,
          firstPrimitiveIndex = IntV 0, numPackedVertices = IntV 1,
          numPrimitives = IntV 1, firstDataRunIndex = IntV 0, numDataRuns = IntV 0\<rparr>],
      verts = [Some (0, 0, 0), Some (1, 0, 0)]\<rparr>"

text \<open>
  Nodes of a tag file as the extractor walks it: a body with a name and,
  possibly, a mesh tree under \<open>shape.data.meshTree\<close>; a resource handle with a
  name and a \<open>bodyCinfos\<close> sequence; the root tag with its single named variant;
  and the stream of an Object-type tag file with that root.
\<close>

definition body_node :: "string \<Rightarrow> payload option \<Rightarrow> TagObject" where
  "body_node nm mesh =
     TagObject (Dict
       [(''name'', TagObject (StrV nm)),
        (''shape'', TagObject (Obj (TagObject (Dict
           (case mesh of
              None \<Rightarrow> []
            | Some mt \<Rightarrow>
                [(''data'', TagObject (Obj (TagObject (Dict [(''meshTree'', TagObject mt)]))))])))))])"

definition resource_node :: "string \<Rightarrow> TagObject list \<Rightarrow> TagObject" where
  "resource_node nm bodies =
     TagObject (Obj (TagObject (Dict
       [(''name'', TagObject (StrV nm)),
        (''variant'', TagObject (Obj (TagObject (Dict
           [(''bodyCinfos'', TagObject (Seq bodies))]))))])))"

definition root_node :: "TagObject list \<Rightarrow> TagObject" where
  "root_node resources =
     TagObject (Dict
       [(''namedVariants'', TagObject (Seq
          [TagObject (Dict
             [(''variant'', TagObject (Obj (TagObject (Dict
                 [(''resourceHandles'', TagObject (Seq resources))]))))])]))])"

definition object_stream :: "TagObject \<Rightarrow> tag_stream" where
  "object_stream root_tag = \<lparr>checkIO = Inr Object, fromIO = Inr root_tag\<rparr>"

section \<open>Properties\<close>

lemma bindE_Inr [simp]: "bindE (Inr v) f = f v"
  by (simp add: bindE_def)

lemma bindE_Inl [simp]: "bindE (Inl e) f = Inl e"
  by (simp add: bindE_def)

lemma bindE_eq_Inr: "bindE m f = Inr y \<longleftrightarrow> (\<exists>v. m = Inr v \<and> f v = Inr y)"
  by (cases m) (simp_all add: bindE_def)

lemma bindE_eq_Inl: "bindE m f = Inl e \<longleftrightarrow> m = Inl e \<or> (\<exists>v. m = Inr v \<and> f v = Inl e)"
  by (cases m) (simp_all add: bindE_def)

lemma mapE_nth:
  "mapE f xs = Inr ys \<Longrightarrow> length ys = length xs \<and> (\<forall>i < length xs. f (xs ! i) = Inr (ys ! i))"
proof (induction xs arbitrary: ys)
  case Nil
  then show ?case by simp
next
  case (Cons x xs)
  from Cons.prems obtain y ys' where y: "f x = Inr y" and ys': "mapE f xs = Inr ys'"
    and ys: "ys = y # ys'"
    by (auto simp: bindE_eq_Inr)
  from Cons.IH [OF ys'] have ih: "length ys' = length xs" "\<forall>i < length xs. f (xs ! i) = Inr (ys' ! i)"
    by simp_all
  show ?case
    using y ih by (auto simp: ys nth_Cons split: nat.splits)
qed

subsection \<open>Which exceptions can be raised\<close>

lemma only_python_Inr [simp]: "only_python (Inr v)"
  by (simp add: only_python_def)

lemma only_python_Inl [simp]: "only_python (Inl e) = is_python_exception e"
  by (simp add: only_python_def)

lemma is_python_exception_simps [simp]:
  "is_python_exception (KeyError k)" "is_python_exception IndexError"
  "is_python_exception TypeError" "is_python_exception AttributeError"
  "is_python_exception ValueError" "is_python_exception OverflowError"
  "is_python_exception AssertionError"
  "\<not> is_python_exception (MalformedTag p)" "\<not> is_python_exception CorruptGeometry"
  by (simp_all add: is_python_exception_def)

lemma only_python_bindE:
  "only_python m \<Longrightarrow> (\<And>v. only_python (f v)) \<Longrightarrow> only_python (bindE m f)"
  by (cases m) simp_all

lemma only_python_mapE: "(\<And>x. only_python (f x)) \<Longrightarrow> only_python (mapE f xs)"
  by (induction xs) (simp_all add: only_python_bindE)

lemma only_python_foldE: "(\<And>s x. only_python (f s x)) \<Longrightarrow> only_python (foldE f s xs)"
  by (induction xs arbitrary: s) (simp_all add: only_python_bindE)

lemma only_python_if:
  "(c \<Longrightarrow> only_python a) \<Longrightarrow> (\<not> c \<Longrightarrow> only_python b) \<Longrightarrow> only_python (if c then a else b)"
  by simp

lemma only_python_getitem [simp]: "only_python (getitem p k)"
  by (cases p) (simp_all split: option.splits)

lemma only_python_attr_value [simp]: "only_python (attr_value p)"
  by (cases p) simp_all

lemma only_python_elements [simp]: "only_python (elements p)"
  by (cases p) simp_all

lemma only_python_slice3 [simp]: "only_python (slice3 p)"
  by (cases p) simp_all

lemma only_python_getitem0 [simp]: "only_python (getitem0 p)"
  by (cases p) (simp_all split: list.splits)

lemma only_python_len [simp]: "only_python (len p)"
  by (cases p) simp_all

lemma only_python_contains [simp]: "only_python (contains k p)"
  by (cases p) simp_all

lemma only_python_as_float [simp]: "only_python (as_float p)"
  by (cases p) simp_all

lemma only_python_as_uint32 [simp]: "only_python (as_uint32 p)"
  by (cases p) simp_all

lemma only_python_as_uint64 [simp]: "only_python (as_uint64 p)"
  by (cases p) simp_all

lemma only_python_as_int64 [simp]: "only_python (as_int64 p)"
  by (cases p) simp_all

lemma only_python_as_int [simp]: "only_python (as_int p)"
  by (cases p) simp_all

lemma only_python_broadcast3 [simp]: "only_python (broadcast3 v)"
  by (cases v rule: broadcast3.cases) simp_all

lemmas only_python_steps =
  only_python_bindE only_python_mapE only_python_foldE only_python_if

lemma only_python_values_of [simp]: "only_python (values_of p)"
  unfolding values_of_def by (intro only_python_steps) simp_all

lemma only_python_domain_vector [simp]: "only_python (domain_vector t k)"
  unfolding domain_vector_def by (intro only_python_steps) simp_all

lemma only_python_scalar_field [simp]: "only_python (scalar_field t k)"
  unfolding scalar_field_def by (intro only_python_steps) simp_all

lemma only_python_HavokSection_init [simp]: "only_python (HavokSection_init t)"
  unfolding HavokSection_init_def by (intro only_python_steps) simp_all

lemma only_python_unpack_packed_vertices [simp]: "only_python (unpack_packed_vertices ps c lo hi)"
  unfolding unpack_packed_vertices_def by (intro only_python_steps) simp_all

lemma only_python_unpack_shared_vertices [simp]: "only_python (unpack_shared_vertices ss lo hi)"
  unfolding unpack_shared_vertices_def by (intro only_python_steps) simp_all

lemma only_python_assign_slice [simp]: "only_python (assign_slice xs a b src)"
  by (simp add: assign_slice_def Let_def)

lemma only_python_index_array [simp]: "only_python (index_array t k)"
  by (simp add: index_array_def)

lemma only_python_lookup_shared [simp]: "only_python (lookup_shared svi n fs v)"
  unfolding lookup_shared_def by (intro only_python_steps) simp_all

lemma only_python_decode_section [simp]: "only_python (decode_section packed vs sec)"
  unfolding decode_section_def by (intro only_python_steps) simp_all

lemma only_python_resolve_section [simp]: "only_python (resolve_section P svi prims sec)"
  unfolding resolve_section_def by (intro only_python_steps) simp_all

lemma only_python_section_step [simp]: "only_python (section_step packed svi st sec)"
  unfolding section_step_def by (intro only_python_steps) simp_all

lemma only_python_primitive_rows [simp]: "only_python (primitive_rows t)"
  unfolding primitive_rows_def by (intro only_python_steps) simp_all

lemma only_python_np_stack [simp]: "only_python (np_stack rows)"
  unfolding np_stack_def by (intro only_python_steps) simp_all

lemma only_python_uint32_array [simp]: "only_python (uint32_array t k)"
  unfolding uint32_array_def by (intro only_python_steps) simp_all

lemma only_python_uint64_array [simp]: "only_python (uint64_array t k)"
  unfolding uint64_array_def by (intro only_python_steps) simp_all

lemma only_python_read_sections [simp]: "only_python (read_sections t)"
  unfolding read_sections_def by (intro only_python_steps) simp_all

lemma only_python_HavokGeometry_init [simp]: "only_python (HavokGeometry_init nm t)"
  unfolding HavokGeometry_init_def by (intro only_python_steps) simp_all

lemma only_python_extract_body [simp]: "only_python (extract_body out b)"
  unfolding extract_body_def by (intro only_python_steps) simp_all

lemma only_python_extract_resource [simp]: "only_python (extract_resource out v)"
  unfolding extract_resource_def by (intro only_python_steps) simp_all

lemma only_python_resource_handles [simp]: "only_python (resource_handles t)"
  unfolding resource_handles_def by (intro only_python_steps) simp_all

subsection \<open>Rounding\<close>

lemma round_even_of_int [simp]: "round_even (of_int k) = k"
  by (simp add: round_even_def)

lemma round_even_mono: "x \<le> y \<Longrightarrow> round_even x \<le> round_even y"
proof -
  assume xy: "x \<le> y"
  have fx: "\<lfloor>x\<rfloor> \<le> round_even x" "round_even x \<le> \<lfloor>x\<rfloor> + 1"
    by (simp_all add: round_even_def Let_def)
  have fy: "\<lfloor>y\<rfloor> \<le> round_even y" "round_even y \<le> \<lfloor>y\<rfloor> + 1"
    by (simp_all add: round_even_def Let_def)
  have le: "\<lfloor>x\<rfloor> \<le> \<lfloor>y\<rfloor>" using xy by (rule floor_mono)
  show ?thesis
  proof (cases "\<lfloor>x\<rfloor> = \<lfloor>y\<rfloor>")
    case True
    then show ?thesis using xy by (auto simp: round_even_def Let_def)
  next
    case False
    with le have "\<lfloor>x\<rfloor> + 1 \<le> \<lfloor>y\<rfloor>" by simp
    with fx fy show ?thesis by linarith
  qed
qed

lemma round_even_minus: "round_even (- x) = - round_even x"
proof (cases "x = of_int \<lfloor>x\<rfloor>")
  case True
  then obtain k where "x = of_int k" ..
  then have "- x = of_int (- k)" by simp
  then show ?thesis using \<open>x = of_int k\<close> by (metis round_even_of_int)
next
  case False
  moreover have "of_int \<lfloor>x\<rfloor> \<le> x" by (rule of_int_floor_le)
  ultimately have lt: "of_int \<lfloor>x\<rfloor> < x" by linarith
  have "\<lfloor>- x\<rfloor> = - \<lfloor>x\<rfloor> - 1"
  proof (rule floor_unique)
    show "of_int (- \<lfloor>x\<rfloor> - 1) \<le> - x" by simp linarith
    show "- x < of_int (- \<lfloor>x\<rfloor> - 1) + 1" using lt by simp
  qed
  then show ?thesis
    by (auto simp: round_even_def Let_def)
qed

lemma spacing_pos: "0 < q \<Longrightarrow> 0 < spacing p q a"
  by (induction p q a rule: spacing.induct) (subst spacing.simps, simp)

lemma spacing_upper: "0 < q \<Longrightarrow> a < 2 ^ p * spacing p q a"
  by (induction p q a rule: spacing.induct) (subst spacing.simps, simp add: not_le)

lemma spacing_unique:
  "0 < q \<Longrightarrow> a < 2 ^ p * (2 ^ k * q) \<Longrightarrow> k = 0 \<or> 2 ^ p * (2 ^ k * q) \<le> 2 * a
     \<Longrightarrow> spacing p q a = 2 ^ k * q"
proof (induction k arbitrary: q)
  case 0
  then show ?case by (subst spacing.simps) simp
next
  case (Suc k)
  from Suc.prems have big: "2 ^ p * (2 ^ k * q) \<le> a" by simp
  have "(1::real) \<le> 2 ^ k" by simp
  then have "q \<le> 2 ^ k * q" using Suc.prems(1) by simp
  then have "2 ^ p * q \<le> 2 ^ p * (2 ^ k * q)" by simp
  with big have step: "2 ^ p * q \<le> a" by linarith
  have "spacing p (2 * q) a = 2 ^ k * (2 * q)"
  proof (rule Suc.IH)
    show "0 < 2 * q" using Suc.prems(1) by simp
    show "a < 2 ^ p * (2 ^ k * (2 * q))" using Suc.prems(2) by (simp add: mult_ac)
    show "k = 0 \<or> 2 ^ p * (2 ^ k * (2 * q)) \<le> 2 * a" using big by (simp add: mult_ac)
  qed
  then show ?case using step Suc.prems(1) by (subst spacing.simps) (simp add: mult_ac)
qed

lemma spacing_form:
  "0 < q \<Longrightarrow> \<exists>k. spacing p q a = 2 ^ k * q \<and> (k = 0 \<or> 2 ^ p * spacing p q a \<le> 2 * a)"
proof (induction p q a rule: spacing.induct)
  case (1 p q a)
  show ?case
  proof (cases "2 ^ p * q \<le> a")
    case False
    then have "spacing p q a = q" by (subst spacing.simps) simp
    then show ?thesis by (intro exI [of _ 0]) simp
  next
    case True
    with 1 obtain k where k: "spacing p (2 * q) a = 2 ^ k * (2 * q)"
      "k = 0 \<or> 2 ^ p * spacing p (2 * q) a \<le> 2 * a" by auto
    have eq: "spacing p q a = spacing p (2 * q) a"
      using True 1(2) by (subst spacing.simps) simp
    have "2 ^ p * spacing p q a \<le> 2 * a"
    proof (cases "k = 0")
      case True
      with k(1) eq have "spacing p q a = 2 * q" by simp
      then show ?thesis using \<open>2 ^ p * q \<le> a\<close> by simp
    next
      case False
      with k(2) eq show ?thesis by simp
    qed
    then show ?thesis using k(1) eq by (intro exI [of _ "Suc k"]) simp
  qed
qed

lemma round_float_zero [simp]: "round_float p q 0 = 0"
  by (simp add: round_float_def round_even_def)

lemma round_float_minus: "round_float p q (- x) = - round_float p q x"
  by (simp add: round_float_def round_even_minus)

lemma round_float_nonneg:
  assumes "0 < q" "0 \<le> x"
  shows "0 \<le> round_float p q x"
proof -
  have s: "0 < spacing p q \<bar>x\<bar>" using assms(1) by (rule spacing_pos)
  then have "0 \<le> x / spacing p q \<bar>x\<bar>" using assms(2) by simp
  then have "round_even 0 \<le> round_even (x / spacing p q \<bar>x\<bar>)" by (rule round_even_mono)
  then have "0 \<le> round_even (x / spacing p q \<bar>x\<bar>)" by (simp add: round_even_def)
  then show ?thesis using s by (simp add: round_float_def)
qed

lemma round_float_mono_nonneg:
  assumes q: "0 < q" and p: "0 < p" and x: "0 \<le> x" and xy: "x \<le> y"
  shows "round_float p q x \<le> round_float p q y"
proof -
  define sx where "sx = spacing p q x"
  define sy where "sy = spacing p q y"
  have sxpos: "0 < sx" and sypos: "0 < sy"
    using q by (simp_all add: sx_def sy_def spacing_pos)
  obtain i where i: "sx = 2 ^ i * q" "i = 0 \<or> 2 ^ p * sx \<le> 2 * x"
    using spacing_form [OF q, of p x] unfolding sx_def by blast
  obtain j where j: "sy = 2 ^ j * q" "j = 0 \<or> 2 ^ p * sy \<le> 2 * y"
    using spacing_form [OF q, of p y] unfolding sy_def by blast
  have ux: "x < 2 ^ p * sx" unfolding sx_def using q by (rule spacing_upper)
  have uy: "y < 2 ^ p * sy" unfolding sy_def using q by (rule spacing_upper)
  have fx: "round_float p q x = of_int (round_even (x / sx)) * sx"
    using x by (simp add: round_float_def sx_def)
  have fy: "round_float p q y = of_int (round_even (y / sy)) * sy"
    using x xy by (simp add: round_float_def sy_def)
  have ij: "i \<le> j"
  proof (rule ccontr)
    assume "\<not> i \<le> j"
    then have lt: "Suc j \<le> i" by simp
    then have "i \<noteq> 0" by simp
    with i(2) have "2 ^ p * sx \<le> 2 * x" by simp
    also have "\<dots> \<le> 2 * y" using xy by simp
    also have "\<dots> < 2 * (2 ^ p * sy)" using uy by simp
    finally have "sx < 2 * sy" by simp
    then have "(2::real) ^ i < 2 ^ Suc j" using q by (simp add: i(1) j(1))
    then have "i < Suc j" by (rule power_less_imp_less_exp [rotated]) simp
    with lt show False by simp
  qed
  show ?thesis
  proof (cases "i = j")
    case True
    then have same: "sx = sy" by (simp add: i(1) j(1))
    have "x / sy \<le> y / sy" using xy sypos by (simp add: divide_right_mono)
    then have "round_even (x / sy) \<le> round_even (y / sy)" by (rule round_even_mono)
    then show ?thesis using sypos by (simp add: fx fy same)
  next
    case False
    with ij have lt: "Suc i \<le> j" by simp
    then have "(2::real) ^ Suc i \<le> 2 ^ j" by (rule power_increasing) simp
    then have dbl: "2 * sx \<le> sy" using q by (simp add: i(1) j(1) mult_ac)
    from lt have "j \<noteq> 0" by simp
    with j(2) have low: "2 ^ p * sy \<le> 2 * y" by simp
    obtain p' where p': "p = Suc p'" using p by (cases p) auto
    have "of_int (2 ^ p') \<le> y / sy"
      using low sypos by (simp add: p' field_simps)
    then have "round_even (of_int (2 ^ p')) \<le> round_even (y / sy)" by (rule round_even_mono)
    then have "2 ^ p' \<le> round_even (y / sy)" by (simp only: round_even_of_int)
    then have "(2::real) ^ p' \<le> of_int (round_even (y / sy))" by (metis of_int_le_iff of_int_numeral of_int_power)
    then have "2 ^ p' * sy \<le> of_int (round_even (y / sy)) * sy"
      using sypos by (simp add: mult_right_mono)
    then have ylow: "2 ^ p' * sy \<le> round_float p q y" by (simp add: fy)
    have "x / sx \<le> of_int (2 ^ p)" using ux sxpos by (simp add: field_simps)
    then have "round_even (x / sx) \<le> round_even (of_int (2 ^ p))" by (rule round_even_mono)
    then have "round_even (x / sx) \<le> 2 ^ p" by (simp only: round_even_of_int)
    then have "of_int (round_even (x / sx)) \<le> (2::real) ^ p" by (metis of_int_le_iff of_int_numeral of_int_power)
    then have "of_int (round_even (x / sx)) * sx \<le> 2 ^ p * sx"
      using sxpos by (simp add: mult_right_mono)
    then have xup: "round_float p q x \<le> 2 ^ p * sx" by (simp add: fx)
    have "2 ^ p * sx = 2 ^ p' * (2 * sx)" by (simp add: p')
    also have "\<dots> \<le> 2 ^ p' * sy" using dbl by simp
    finally show ?thesis using xup ylow by linarith
  qed
qed

lemma round_float_mono:
  assumes q: "0 < q" and p: "0 < p" and xy: "x \<le> y"
  shows "round_float p q x \<le> round_float p q y"
proof (cases "0 \<le> x")
  case True
  then show ?thesis using q p xy by (intro round_float_mono_nonneg)
next
  case False
  show ?thesis
  proof (cases "0 \<le> y")
    case True
    have "0 \<le> round_float p q (- x)" using q False by (intro round_float_nonneg) simp_all
    then have "round_float p q x \<le> 0" by (simp add: round_float_minus)
    also have "0 \<le> round_float p q y" using q True by (rule round_float_nonneg)
    finally show ?thesis .
  next
    case y: False
    have "round_float p q (- y) \<le> round_float p q (- x)"
      using q p y xy by (intro round_float_mono_nonneg) simp_all
    then show ?thesis by (simp add: round_float_minus)
  qed
qed

lemma round_float_exact:
  assumes q: "0 < q" and m: "\<bar>m\<bar> < 2 ^ p" and k: "k = 0 \<or> 2 ^ p \<le> 2 * \<bar>m\<bar>"
  shows "round_float p q (of_int m * (2 ^ k * q)) = of_int m * (2 ^ k * q)"
proof -
  define s where "s = 2 ^ k * q"
  have spos: "0 < s" using q by (simp add: s_def)
  have a: "\<bar>of_int m * s\<bar> = of_int \<bar>m\<bar> * s" using spos by (simp add: abs_mult)
  have "of_int \<bar>m\<bar> < (2::real) ^ p" using m by (metis of_int_less_iff of_int_numeral of_int_power)
  then have up: "of_int \<bar>m\<bar> * s < 2 ^ p * s" using spos by simp
  have low: "k = 0 \<or> 2 ^ p * s \<le> 2 * (of_int \<bar>m\<bar> * s)"
  proof (cases "k = 0")
    case False
    with k have "2 ^ p \<le> 2 * \<bar>m\<bar>" by simp
    then have "(2::real) ^ p \<le> of_int (2 * \<bar>m\<bar>)" by (metis of_int_le_iff of_int_numeral of_int_power)
    then have "2 ^ p * s \<le> of_int (2 * \<bar>m\<bar>) * s" using spos by (simp only: mult_le_cancel_right_pos)
    then show ?thesis by simp
  qed simp
  have "spacing p q (of_int \<bar>m\<bar> * s) = 2 ^ k * q"
    using q up low unfolding s_def by (intro spacing_unique)
  then have sp: "spacing p q \<bar>of_int m * s\<bar> = s" unfolding a s_def [symmetric] .
  have "of_int m * s / s = of_int m" using spos by simp
  then show ?thesis unfolding s_def [symmetric] round_float_def sp by (simp only: round_even_of_int)
qed

lemma round_float_idem_nonneg:
  assumes q: "0 < q" and p: "0 < p" and x: "0 \<le> x"
  shows "round_float p q (round_float p q x) = round_float p q x"
proof -
  define s where "s = spacing p q x"
  define m where "m = round_even (x / s)"
  have spos: "0 < s" using q by (simp add: s_def spacing_pos)
  obtain k where k: "s = 2 ^ k * q" "k = 0 \<or> 2 ^ p * s \<le> 2 * x"
    using spacing_form [OF q, of p x] unfolding s_def by blast
  have ux: "x < 2 ^ p * s" unfolding s_def using q by (rule spacing_upper)
  have fx: "round_float p q x = of_int m * s"
    using x by (simp add: round_float_def s_def m_def)
  obtain p' where p': "p = Suc p'" using p by (cases p) auto
  have "0 \<le> x / s" using x spos by simp
  then have "round_even 0 \<le> m" unfolding m_def by (rule round_even_mono)
  then have m0: "0 \<le> m" by (simp add: round_even_def)
  have "x / s \<le> of_int (2 ^ p)" using ux spos by (simp add: field_simps)
  then have "m \<le> round_even (of_int (2 ^ p))" unfolding m_def by (rule round_even_mono)
  then have mup: "m \<le> 2 ^ p" by (simp only: round_even_of_int)
  have mlow: "k = 0 \<or> 2 ^ p \<le> 2 * m"
  proof (cases "k = 0")
    case False
    with k(2) have "2 ^ p * s \<le> 2 * x" by simp
    then have "of_int (2 ^ p') \<le> x / s" using spos by (simp add: p' field_simps)
    then have "round_even (of_int (2 ^ p')) \<le> m" unfolding m_def by (rule round_even_mono)
    then have "2 ^ p' \<le> m" by (simp only: round_even_of_int)
    then show ?thesis by (simp add: p')
  qed simp
  show ?thesis
  proof (cases "m = 2 ^ p")
    case False
    with mup m0 have "\<bar>m\<bar> < 2 ^ p" by simp
    moreover have "k = 0 \<or> 2 ^ p \<le> 2 * \<bar>m\<bar>" using mlow m0 by simp
    ultimately have "round_float p q (of_int m * (2 ^ k * q)) = of_int m * (2 ^ k * q)"
      using q by (intro round_float_exact)
    then show ?thesis by (simp add: fx k(1))
  next
    case True
    have "round_float p q (of_int (2 ^ p') * (2 ^ Suc k * q)) = of_int (2 ^ p') * (2 ^ Suc k * q)"
      using q by (intro round_float_exact) (simp_all add: p')
    moreover have "of_int m * s = of_int (2 ^ p') * (2 ^ Suc k * q)"
      by (simp add: True p' k(1))
    ultimately show ?thesis by (simp only: fx)
  qed
qed

lemma round_float_idem:
  assumes q: "0 < q" and p: "0 < p"
  shows "round_float p q (round_float p q x) = round_float p q x"
proof (cases "0 \<le> x")
  case True
  with q p show ?thesis by (rule round_float_idem_nonneg)
next
  case False
  then have "round_float p q (round_float p q (- x)) = round_float p q (- x)"
    using q p by (intro round_float_idem_nonneg) simp_all
  then show ?thesis by (simp add: round_float_minus)
qed

lemma float32_mono: "x \<le> y \<Longrightarrow> float32 x \<le> float32 y"
  unfolding float32_def by (rule round_float_mono) simp_all

lemma float64_mono: "x \<le> y \<Longrightarrow> float64 x \<le> float64 y"
  unfolding float64_def by (rule round_float_mono) simp_all

lemma float32_idem [simp]: "float32 (float32 x) = float32 x"
  unfolding float32_def by (rule round_float_idem) simp_all

lemma float32_zero [simp]: "float32 0 = 0"
  by (simp add: float32_def)

lemma float64_zero [simp]: "float64 0 = 0"
  by (simp add: float64_def)

lemma float32_one [simp]: "float32 1 = 1"
  using round_float_exact [of "1 / 2 ^ 149" "2 ^ 23" 24 126]
  by (simp add: float32_def)

lemma float64_one [simp]: "float64 1 = 1"
  using round_float_exact [of "1 / 2 ^ 1074" "2 ^ 52" 53 1022]
  by (simp add: float64_def)

subsection \<open>Vertex codec\<close>



lemma clip_inside: "lo \<le> x \<Longrightarrow> x \<le> hi \<Longrightarrow> clip x lo hi = x"
  by (simp add: clip_def)




lemma mask21_le: "unat (s AND (0x1FFFFF :: 64 word)) \<le> 0x1FFFFF"
proof -
  have "unat (s AND 0x1FFFFF) \<le> unat (0x1FFFFF :: 64 word)"
    by (rule word_and_le1 [THEN word_le_nat_alt [THEN iffD1]])
  then show ?thesis by simp
qed

lemma mask22_le: "unat (s AND (0x3FFFFF :: 64 word)) \<le> 0x3FFFFF"
proof -
  have "unat (s AND 0x3FFFFF) \<le> unat (0x3FFFFF :: 64 word)"
    by (rule word_and_le1 [THEN word_le_nat_alt [THEN iffD1]])
  then show ?thesis by simp
qed

lemma frac_unit: "n \<le> m \<Longrightarrow> 0 < m \<Longrightarrow> 0 \<le> real n / real m \<and> real n / real m \<le> 1"
  by simp

lemma rounded_frac_unit:
  assumes "n \<le> m" "0 < m"
  shows "0 \<le> float32 (float64 (real n / real m)) \<and> float32 (float64 (real n / real m)) \<le> 1"
proof -
  from frac_unit [OF assms] have a: "0 \<le> real n / real m" "real n / real m \<le> 1" by simp_all
  have "float64 0 \<le> float64 (real n / real m)" using a(1) by (rule float64_mono)
  then have "float32 0 \<le> float32 (float64 (real n / real m))" by (intro float32_mono) simp
  moreover have "float64 (real n / real m) \<le> float64 1" using a(2) by (rule float64_mono)
  then have "float32 (float64 (real n / real m)) \<le> float32 1" by (intro float32_mono) simp
  ultimately show ?thesis by simp
qed

lemma shared_fracs_unit:
  "case shared_fracs s of (fx, fy, fz) \<Rightarrow>
     0 \<le> fx \<and> fx \<le> 1 \<and> 0 \<le> fy \<and> fy \<le> 1 \<and> 0 \<le> fz \<and> fz \<le> 1"
  using rounded_frac_unit [OF mask21_le [of s]] rounded_frac_unit [OF mask21_le [of "drop_bit 21 s"]]
    rounded_frac_unit [OF mask22_le [of "drop_bit 42 s"]]
  by (simp add: shared_fracs_def shared_fields_def)

text \<open>
  One axis. The difference is not negative, the product lies between 0 and the
  difference, and the sum between the images of the two: rounding is monotone
  and leaves \<open>lo\<close>, a \<^verbatim>\<open>float32\<close> value, as it is.
\<close>

lemma decode_axis_bounds:
  assumes f: "0 \<le> f" "f \<le> 1" and d: "finite_domain lo hi" and le: "lo \<le> hi"
  shows "lo \<le> float32 (float32 (f * float32 (hi - lo)) + lo) \<and>
         float32 (float32 (f * float32 (hi - lo)) + lo) \<le> float32 (float32 (hi - lo) + lo) \<and>
         is_float32 (float32 (float32 (f * float32 (hi - lo)) + lo))"
proof -
  define w where "w = float32 (hi - lo)"
  define r where "r = float32 (float32 (f * w) + lo)"
  have lo: "float32 lo = lo" "- float32_max \<le> lo"
    using d by (simp_all add: finite_domain_def is_float32_def abs_le_iff)
  have top: "float32 (w + lo) \<le> float32_max"
    using d by (simp add: finite_domain_def is_float32_def abs_le_iff w_def)
  have "float32 0 \<le> w" unfolding w_def using le by (intro float32_mono) simp
  then have w0: "0 \<le> w" by simp
  have "0 \<le> f * w" using f(1) w0 by simp
  then have "float32 0 \<le> float32 (f * w)" by (rule float32_mono)
  then have p0: "0 \<le> float32 (f * w)" by simp
  have "f * w \<le> 1 * w" using f(2) w0 by (intro mult_right_mono)
  then have "float32 (f * w) \<le> float32 w" by (intro float32_mono) simp
  then have p1: "float32 (f * w) \<le> w" by (simp add: w_def)
  have "float32 lo \<le> r" unfolding r_def using p0 by (intro float32_mono) simp
  then have low: "lo \<le> r" by (simp add: lo(1))
  have up: "r \<le> float32 (w + lo)" unfolding r_def using p1 by (intro float32_mono) simp
  have "float32 r = r" by (simp add: r_def)
  moreover have "\<bar>r\<bar> \<le> float32_max" using low up lo(2) top by (simp add: abs_le_iff)
  ultimately have "is_float32 r" by (simp add: is_float32_def)
  with low up show ?thesis by (simp add: r_def w_def)
qed

lemma decode_shared_bounds:
  assumes "finite_domain lx hx" "finite_domain ly hy" "finite_domain lz hz"
    and "lx \<le> hx" "ly \<le> hy" "lz \<le> hz"
  shows "case decode_shared (lx, ly, lz) (hx, hy, hz) s of (x, y, z) \<Rightarrow>
           lx \<le> x \<and> x \<le> float32 (float32 (hx - lx) + lx) \<and> is_float32 x \<and>
           ly \<le> y \<and> y \<le> float32 (float32 (hy - ly) + ly) \<and> is_float32 y \<and>
           lz \<le> z \<and> z \<le> float32 (float32 (hz - lz) + lz) \<and> is_float32 z"
proof -
  obtain fx fy fz where f: "shared_fracs s = (fx, fy, fz)"
    by (cases "shared_fracs s") auto
  with shared_fracs_unit [of s]
  have u: "0 \<le> fx" "fx \<le> 1" "0 \<le> fy" "fy \<le> 1" "0 \<le> fz" "fz \<le> 1" by simp_all
  show ?thesis
    using decode_axis_bounds [OF u(1,2) assms(1,4)] decode_axis_bounds [OF u(3,4) assms(2,5)]
      decode_axis_bounds [OF u(5,6) assms(3,6)]
    by (simp add: decode_shared_def f)
qed

lemma unpack_shared_vertices_eq:
  "unpack_shared_vertices ss [lx, ly, lz] [hx, hy, hz] = Inr (map (decode_shared (lx, ly, lz) (hx, hy, hz)) ss)"
  by (simp add: unpack_shared_vertices_def)

lemma shared_fracs_formula:
  "shared_fracs s =
     (float32 (float64 (real (unat (s AND 0x1FFFFF)) / 0x1FFFFF)),
      float32 (float64 (real (unat (drop_bit 21 s AND 0x1FFFFF)) / 0x1FFFFF)),
      float32 (float64 (real (unat (drop_bit 42 s AND 0x3FFFFF)) / 0x3FFFFF)))"
  by (simp add: shared_fracs_def shared_fields_def)

lemma unpack_shared_vertices_formula:
  "unpack_shared_vertices ss [lx, ly, lz] [hx, hy, hz] =
     Inr (map (\<lambda>s. case shared_fracs s of (fx, fy, fz) \<Rightarrow>
                (float32 (float32 (fx * float32 (hx - lx)) + lx),
                 float32 (float32 (fy * float32 (hy - ly)) + ly),
                 float32 (float32 (fz * float32 (hz - lz)) + lz))) ss)"
  by (simp add: unpack_shared_vertices_eq decode_shared_def)

lemma unpack_shared_vertices_bounds:
  assumes d: "finite_domain lx hx \<and> finite_domain ly hy \<and> finite_domain lz hz \<and>
              lx \<le> hx \<and> ly \<le> hy \<and> lz \<le> hz"
    and r: "unpack_shared_vertices ss [lx, ly, lz] [hx, hy, hz] = Inr vs"
  shows "length vs = length ss \<and>
          (\<forall>i < length ss. case vs ! i of (x, y, z) \<Rightarrow>
             lx \<le> x \<and> x \<le> float32 (float32 (hx - lx) + lx) \<and> is_float32 x \<and>
             ly \<le> y \<and> y \<le> float32 (float32 (hy - ly) + ly) \<and> is_float32 y \<and>
             lz \<le> z \<and> z \<le> float32 (float32 (hz - lz) + lz) \<and> is_float32 z)"
proof -
  from r have vs: "vs = map (decode_shared (lx, ly, lz) (hx, hy, hz)) ss"
    by (simp add: unpack_shared_vertices_eq)
  show ?thesis
    using d decode_shared_bounds [of lx hx ly hy lz hz] by (simp add: vs)
qed

text \<open>The values of the example below: \<^verbatim>\<open>float32(-1.1)\<close> and \<^verbatim>\<open>float32(2.3)\<close>.\<close>

lemma float32_example_min: "float32 (- (9227469 / 8388608)) = - (9227469 / 8388608)"
  using round_float_exact [of "1 / 2 ^ 149" "- 9227469" 24 126]
  by (simp add: float32_def)

lemma float32_example_max: "float32 (9646899 / 4194304) = 9646899 / 4194304"
  using round_float_exact [of "1 / 2 ^ 149" "9646899" 24 127]
  by (simp add: float32_def)

lemma float32_example_span: "float32 (28521267 / 8388608) = 7130317 / 2097152"
  by (simp add: float32_def round_float_def spacing.simps round_even_def)

lemma float32_example_top: "float32 (19293799 / 8388608) = 2411725 / 1048576"
  by (simp add: float32_def round_float_def spacing.simps round_even_def)

lemma float32_example_span_fixed: "float32 (7130317 / 2097152) = 7130317 / 2097152"
  using float32_idem [of "28521267 / 8388608"] by (simp only: float32_example_span)

lemma float32_example_top_fixed: "float32 (2411725 / 1048576) = 2411725 / 1048576"
  using float32_idem [of "19293799 / 8388608"] by (simp only: float32_example_top)

lemmas float32_example =
  float32_example_min float32_example_max float32_example_span float32_example_top
  float32_example_span_fixed float32_example_top_fixed

lemma shared_fracs_ones: "shared_fracs 0xFFFFFFFFFFFFFFFF = (1, 1, 1)"
  by (simp add: shared_fracs_def shared_fields_def)

lemma shared_fracs_zero: "shared_fracs 0 = (0, 0, 0)"
  by (simp add: shared_fracs_def shared_fields_def)

lemma finite_domain_example: "finite_domain (- 9227469 / 2 ^ 23) (9646899 / 2 ^ 22)"
  by (simp add: finite_domain_def is_float32_def float32_max_def float32_example)

text \<open>
  Claim C3, as amended. For every array of shared 64-bit values and every
  mesh-wide domain, \<open>unpack_shared_vertices\<close> computes the fractions
  \<open>x = (s AND 0x1FFFFF) / 0x1FFFFF\<close>, \<open>y = ((s >> 21) AND 0x1FFFFF) / 0x1FFFFF\<close> and
  \<open>z = ((s >> 42) AND 0x3FFFFF) / 0x3FFFFF\<close>, each divided in \<^verbatim>\<open>float64\<close>, stored as
  \<^verbatim>\<open>float32\<close> and between 0 and 1, and returns \<open>frac * (max - min) + min\<close> on every
  axis with every operation rounded to \<^verbatim>\<open>float32\<close> and no clamping. When the
  domain is ordered, its bounds are finite \<^verbatim>\<open>float32\<close> values and nothing
  overflows, every decoded coordinate is a finite \<^verbatim>\<open>float32\<close> value that is at
  least \<open>min\<close> and at most \<open>float32 (float32 (max - min) + min)\<close>, the image of the
  largest fraction. That bound can lie above \<open>max\<close>: the decoded coordinate need
  not lie in the domain.
\<close>

theorem unpack_shared_vertices_rounded:
  fixes ss :: "64 word list"
  shows
  "unpack_shared_vertices ss [lx, ly, lz] [hx, hy, hz] =
     Inr (map (\<lambda>s. case shared_fracs s of (fx, fy, fz) \<Rightarrow>
                (float32 (float32 (fx * float32 (hx - lx)) + lx),
                 float32 (float32 (fy * float32 (hy - ly)) + ly),
                 float32 (float32 (fz * float32 (hz - lz)) + lz))) ss)
   \<and> (\<forall>s. shared_fracs s =
             (float32 (float64 (real (unat (s AND 0x1FFFFF)) / 0x1FFFFF)),
              float32 (float64 (real (unat (drop_bit 21 s AND 0x1FFFFF)) / 0x1FFFFF)),
              float32 (float64 (real (unat (drop_bit 42 s AND 0x3FFFFF)) / 0x3FFFFF)))
          \<and> (case shared_fracs s of (fx, fy, fz) \<Rightarrow>
                0 \<le> fx \<and> fx \<le> 1 \<and> 0 \<le> fy \<and> fy \<le> 1 \<and> 0 \<le> fz \<and> fz \<le> 1))
   \<and> (finite_domain lx hx \<and> finite_domain ly hy \<and> finite_domain lz hz \<and>
       lx \<le> hx \<and> ly \<le> hy \<and> lz \<le> hz \<longrightarrow>
        (\<forall>vs. unpack_shared_vertices ss [lx, ly, lz] [hx, hy, hz] = Inr vs \<longrightarrow>
          length vs = length ss \<and>
          (\<forall>i < length ss. case vs ! i of (x, y, z) \<Rightarrow>
             lx \<le> x \<and> x \<le> float32 (float32 (hx - lx) + lx) \<and> is_float32 x \<and>
             ly \<le> y \<and> y \<le> float32 (float32 (hy - ly) + ly) \<and> is_float32 y \<and>
             lz \<le> z \<and> z \<le> float32 (float32 (hz - lz) + lz) \<and> is_float32 z)))"
proof (intro conjI)
  show "unpack_shared_vertices ss [lx, ly, lz] [hx, hy, hz] =
     Inr (map (\<lambda>s. case shared_fracs s of (fx, fy, fz) \<Rightarrow>
                (float32 (float32 (fx * float32 (hx - lx)) + lx),
                 float32 (float32 (fy * float32 (hy - ly)) + ly),
                 float32 (float32 (fz * float32 (hz - lz)) + lz))) ss)"
    by (rule unpack_shared_vertices_formula)
next
  show "\<forall>s. shared_fracs s =
             (float32 (float64 (real (unat (s AND 0x1FFFFF)) / 0x1FFFFF)),
              float32 (float64 (real (unat (drop_bit 21 s AND 0x1FFFFF)) / 0x1FFFFF)),
              float32 (float64 (real (unat (drop_bit 42 s AND 0x3FFFFF)) / 0x3FFFFF)))
          \<and> (case shared_fracs s of (fx, fy, fz) \<Rightarrow>
                0 \<le> fx \<and> fx \<le> 1 \<and> 0 \<le> fy \<and> fy \<le> 1 \<and> 0 \<le> fz \<and> fz \<le> 1)"
    by (intro allI conjI) (rule shared_fracs_formula, rule shared_fracs_unit)
next
  show "finite_domain lx hx \<and> finite_domain ly hy \<and> finite_domain lz hz \<and>
       lx \<le> hx \<and> ly \<le> hy \<and> lz \<le> hz \<longrightarrow>
        (\<forall>vs. unpack_shared_vertices ss [lx, ly, lz] [hx, hy, hz] = Inr vs \<longrightarrow>
          length vs = length ss \<and>
          (\<forall>i < length ss. case vs ! i of (x, y, z) \<Rightarrow>
             lx \<le> x \<and> x \<le> float32 (float32 (hx - lx) + lx) \<and> is_float32 x \<and>
             ly \<le> y \<and> y \<le> float32 (float32 (hy - ly) + ly) \<and> is_float32 y \<and>
             lz \<le> z \<and> z \<le> float32 (float32 (hz - lz) + lz) \<and> is_float32 z))"
    by (intro impI allI) (rule unpack_shared_vertices_bounds)
qed

text \<open>
  The theorem at the domain from \<^verbatim>\<open>float32(-1.1)\<close> to \<^verbatim>\<open>float32(2.3)\<close>, for the
  value with every bit set and the value 0: the first is decoded to the upper
  bound of the theorem, the second to \<open>min\<close>.
\<close>

theorem unpack_shared_vertices_rounded_witness:
  "finite_domain (- 9227469 / 2 ^ 23) (9646899 / 2 ^ 22) \<and>
   (- 9227469 / 2 ^ 23 :: real) \<le> 9646899 / 2 ^ 22 \<and>
   unpack_shared_vertices [0xFFFFFFFFFFFFFFFF, 0]
     [- 9227469 / 2 ^ 23, - 9227469 / 2 ^ 23, - 9227469 / 2 ^ 23]
     [9646899 / 2 ^ 22, 9646899 / 2 ^ 22, 9646899 / 2 ^ 22] =
     Inr [(9646900 / 2 ^ 22, 9646900 / 2 ^ 22, 9646900 / 2 ^ 22),
          (- 9227469 / 2 ^ 23, - 9227469 / 2 ^ 23, - 9227469 / 2 ^ 23)] \<and>
   float32 (float32 (9646899 / 2 ^ 22 - (- 9227469 / 2 ^ 23)) + (- 9227469 / 2 ^ 23)) =
     9646900 / 2 ^ 22 \<and>
   shared_fracs 0xFFFFFFFFFFFFFFFF = (1, 1, 1)"
  using unpack_shared_vertices_rounded [of "[0xFFFFFFFFFFFFFFFF, 0]"
      "- 9227469 / 2 ^ 23" "- 9227469 / 2 ^ 23" "- 9227469 / 2 ^ 23"
      "9646899 / 2 ^ 22" "9646899 / 2 ^ 22" "9646899 / 2 ^ 22"]
    finite_domain_example
  by (simp add: shared_fracs_ones shared_fracs_zero float32_example)

text \<open>
  Claim C3 as it was stated: every decoded coordinate lies in
  \<open>[domain_min, domain_max]\<close> when the domain is ordered. For the domain from
  \<^verbatim>\<open>float32(-1.1)\<close> to \<^verbatim>\<open>float32(2.3)\<close> on every axis and the shared value with
  every bit set, the three fractions are 1, the difference \<open>28521267 / 2 ^ 23\<close>
  is rounded up to \<open>14260634 / 2 ^ 22\<close>, and the sum \<open>19293799 / 2 ^ 23\<close> is rounded
  up to \<open>9646900 / 2 ^ 22\<close>, one unit in the last place above \<open>domain_max\<close>.
\<close>

theorem unpack_shared_vertices_domain_counterexample:
  "is_float32 (- 9227469 / 2 ^ 23) \<and> is_float32 (9646899 / 2 ^ 22) \<and>
   (- 9227469 / 2 ^ 23 :: real) \<le> 9646899 / 2 ^ 22 \<and>
   unpack_shared_vertices [0xFFFFFFFFFFFFFFFF]
     [- 9227469 / 2 ^ 23, - 9227469 / 2 ^ 23, - 9227469 / 2 ^ 23]
     [9646899 / 2 ^ 22, 9646899 / 2 ^ 22, 9646899 / 2 ^ 22] =
     Inr [(9646900 / 2 ^ 22, 9646900 / 2 ^ 22, 9646900 / 2 ^ 22)] \<and>
   (9646899 / 2 ^ 22 :: real) < 9646900 / 2 ^ 22"
  using finite_domain_example
  by (simp add: finite_domain_def unpack_shared_vertices_def decode_shared_def
      shared_fracs_ones float32_example)

subsection \<open>Triangulator\<close>

lemma quads_have_four_columns:
  "list_all (\<lambda>row. 4 \<le> length row) (map (\<lambda>(a, b, c, d). [a, b, c, d]) quads)"
  by (simp add: list_all_iff split: prod.splits)

lemma fan_quad:
  "filter (\<lambda>t. \<not> dupes t) (fan [a, b, c, d]) =
   filter (\<lambda>t. t ! 0 \<noteq> t ! 1 \<and> t ! 1 \<noteq> t ! 2 \<and> t ! 0 \<noteq> t ! 2) [[a, b, c], [a, c, d]]"
  by (simp add: fan_def dupes_def)

lemma fan_quads:
  "filter (\<lambda>t. \<not> dupes t) (concat (map fan (map (\<lambda>(a, b, c, d). [a, b, c, d]) quads))) =
   concat (map (\<lambda>(a, b, c, d).
     filter (\<lambda>t. t ! 0 \<noteq> t ! 1 \<and> t ! 1 \<noteq> t ! 2 \<and> t ! 0 \<noteq> t ! 2) [[a, b, c], [a, c, d]]) quads)"
proof (induction quads)
  case Nil
  show ?case by simp
next
  case (Cons q quads)
  obtain a b c d where q: "q = (a, b, c, d)" by (cases q) auto
  have "filter (\<lambda>t. \<not> dupes t) (concat (map fan (map (\<lambda>(a, b, c, d). [a, b, c, d]) (q # quads)))) =
        filter (\<lambda>t. \<not> dupes t) (fan [a, b, c, d]) @
        filter (\<lambda>t. \<not> dupes t) (concat (map fan (map (\<lambda>(a, b, c, d). [a, b, c, d]) quads)))"
    by (simp only: q list.map concat.simps filter_append prod.case)
  also have "\<dots> = filter (\<lambda>t. t ! 0 \<noteq> t ! 1 \<and> t ! 1 \<noteq> t ! 2 \<and> t ! 0 \<noteq> t ! 2) [[a, b, c], [a, c, d]] @
        concat (map (\<lambda>(a, b, c, d).
     filter (\<lambda>t. t ! 0 \<noteq> t ! 1 \<and> t ! 1 \<noteq> t ! 2 \<and> t ! 0 \<noteq> t ! 2) [[a, b, c], [a, c, d]]) quads)"
    by (simp only: fan_quad Cons.IH)
  also have "\<dots> = concat (map (\<lambda>(a, b, c, d).
     filter (\<lambda>t. t ! 0 \<noteq> t ! 1 \<and> t ! 1 \<noteq> t ! 2 \<and> t ! 0 \<noteq> t ! 2) [[a, b, c], [a, c, d]]) (q # quads))"
    by (simp only: q list.map concat.simps prod.case)
  finally show ?case .
qed

text \<open>
  Claim C4. For every sequence of quads, \<open>tris\<close> yields for each quad
  \<open>(a, b, c, d)\<close> the candidates \<open>(a, b, c)\<close> and \<open>(a, c, d)\<close> in that order, drops
  exactly the candidates in which two of the three indices are equal, and keeps
  the order of the quads. The quad \<open>(1, 2, 3, 4)\<close> gives \<open>(1, 2, 3)\<close> and
  \<open>(1, 3, 4)\<close>; the quad \<open>(1, 1, 2, 3)\<close> gives \<open>(1, 2, 3)\<close> only.
\<close>

theorem tris_spec:
  "tris (g\<lparr>primitives := map (\<lambda>(a, b, c, d). [a, b, c, d]) quads\<rparr>) =
     Inr (concat (map (\<lambda>(a, b, c, d).
            filter (\<lambda>t. t ! 0 \<noteq> t ! 1 \<and> t ! 1 \<noteq> t ! 2 \<and> t ! 0 \<noteq> t ! 2) [[a, b, c], [a, c, d]]) quads))
   \<and> tris (g\<lparr>primitives := [[1, 2, 3, 4]]\<rparr>) = Inr [[1, 2, 3], [1, 3, 4]]
   \<and> tris (g\<lparr>primitives := [[1, 1, 2, 3]]\<rparr>) = Inr [[1, 2, 3]]"
proof (intro conjI)
  show "tris (g\<lparr>primitives := map (\<lambda>(a, b, c, d). [a, b, c, d]) quads\<rparr>) =
     Inr (concat (map (\<lambda>(a, b, c, d).
            filter (\<lambda>t. t ! 0 \<noteq> t ! 1 \<and> t ! 1 \<noteq> t ! 2 \<and> t ! 0 \<noteq> t ! 2) [[a, b, c], [a, c, d]]) quads))"
    by (simp add: tris_def quads_have_four_columns fan_quads del: map_map)
qed (simp_all add: tris_def fan_def dupes_def)

subsection \<open>Section resolver: missing keys\<close>

lemma mapE_Inr_all: "mapE f xs = Inr ys \<Longrightarrow> x \<in> set xs \<Longrightarrow> \<exists>y. f x = Inr y"
  using mapE_nth [of f xs ys] by (auto simp: in_set_conv_nth)

lemma not_Inr_is_Inl: "(\<forall>v. r \<noteq> Inr v) \<Longrightarrow> \<exists>e. r = Inl e"
  by (cases r) auto

lemma scalar_field_Inr:
  "scalar_field (Dict kv) k = Inr p \<longleftrightarrow> (\<exists>t. map_of kv k = Some t \<and> p = tvalue t)"
  by (auto simp: scalar_field_def bindE_eq_Inr split: option.splits)

lemma domain_vector_Inr_key:
  "domain_vector (Dict kv) key = Inr v \<Longrightarrow>
     \<exists>d. map_of kv ''domain'' = Some d \<and> (\<exists>m. getitem (tvalue d) key = Inr m)"
  by (auto simp: domain_vector_def bindE_eq_Inr split: option.splits)

lemma HavokSection_init_Inr:
  assumes "HavokSection_init (Dict kv) = Inr s"
  shows "(\<exists>d. map_of kv ''domain'' = Some d \<and>
            (\<exists>m. getitem (tvalue d) ''min'' = Inr m) \<and> (\<exists>m. getitem (tvalue d) ''max'' = Inr m))"
    and "map_of kv ''codecParms'' \<noteq> None"
    and "\<exists>t. map_of kv ''firstPackedVertexIndex'' = Some t \<and> firstPackedVertexIndex s = tvalue t"
    and "\<exists>t. map_of kv ''firstSharedVertexIndex'' = Some t \<and> firstSharedVertexIndex s = tvalue t"
    and "\<exists>t. map_of kv ''firstPrimitiveIndex'' = Some t \<and> firstPrimitiveIndex s = tvalue t"
    and "\<exists>t. map_of kv ''numPackedVertices'' = Some t \<and> numPackedVertices s = tvalue t"
    and "\<exists>t. map_of kv ''numPrimitives'' = Some t \<and> numPrimitives s = tvalue t"
    and "\<exists>t. map_of kv ''firstDataRunIndex'' = Some t \<and> firstDataRunIndex s = tvalue t"
    and "\<exists>t. map_of kv ''numDataRuns'' = Some t \<and> numDataRuns s = tvalue t"
proof -
  from assms obtain dmin dmax cp fpv fsv fpr npv npr fdr ndr where
    a: "domain_vector (Dict kv) ''min'' = Inr dmin" "domain_vector (Dict kv) ''max'' = Inr dmax"
      "getitem (Dict kv) ''codecParms'' = Inr cp"
      "scalar_field (Dict kv) ''firstPackedVertexIndex'' = Inr fpv"
      "scalar_field (Dict kv) ''firstSharedVertexIndex'' = Inr fsv"
      "scalar_field (Dict kv) ''firstPrimitiveIndex'' = Inr fpr"
      "scalar_field (Dict kv) ''numPackedVertices'' = Inr npv"
      "scalar_field (Dict kv) ''numPrimitives'' = Inr npr"
      "scalar_field (Dict kv) ''firstDataRunIndex'' = Inr fdr"
      "scalar_field (Dict kv) ''numDataRuns'' = Inr ndr"
    and s: "firstPackedVertexIndex s = fpv" "firstSharedVertexIndex s = fsv"
      "firstPrimitiveIndex s = fpr" "numPackedVertices s = npv" "numPrimitives s = npr"
      "firstDataRunIndex s = fdr" "numDataRuns s = ndr"
    unfolding HavokSection_init_def bindE_eq_Inr by auto
  from domain_vector_Inr_key [OF a(1)] domain_vector_Inr_key [OF a(2)]
  show "\<exists>d. map_of kv ''domain'' = Some d \<and>
            (\<exists>m. getitem (tvalue d) ''min'' = Inr m) \<and> (\<exists>m. getitem (tvalue d) ''max'' = Inr m)"
    by auto
  from a(3) show "map_of kv ''codecParms'' \<noteq> None" by (auto split: option.splits)
  from a(4) s(1) show "\<exists>t. map_of kv ''firstPackedVertexIndex'' = Some t \<and> firstPackedVertexIndex s = tvalue t"
    by (simp add: scalar_field_Inr)
  from a(5) s(2) show "\<exists>t. map_of kv ''firstSharedVertexIndex'' = Some t \<and> firstSharedVertexIndex s = tvalue t"
    by (simp add: scalar_field_Inr)
  from a(6) s(3) show "\<exists>t. map_of kv ''firstPrimitiveIndex'' = Some t \<and> firstPrimitiveIndex s = tvalue t"
    by (simp add: scalar_field_Inr)
  from a(7) s(4) show "\<exists>t. map_of kv ''numPackedVertices'' = Some t \<and> numPackedVertices s = tvalue t"
    by (simp add: scalar_field_Inr)
  from a(8) s(5) show "\<exists>t. map_of kv ''numPrimitives'' = Some t \<and> numPrimitives s = tvalue t"
    by (simp add: scalar_field_Inr)
  from a(9) s(6) show "\<exists>t. map_of kv ''firstDataRunIndex'' = Some t \<and> firstDataRunIndex s = tvalue t"
    by (simp add: scalar_field_Inr)
  from a(10) s(7) show "\<exists>t. map_of kv ''numDataRuns'' = Some t \<and> numDataRuns s = tvalue t"
    by (simp add: scalar_field_Inr)
qed


lemma HavokSection_init_needs_keys:
  assumes "HavokSection_init (Dict kv) = Inr s" "k \<in> set section_keys"
  shows "map_of kv k \<noteq> None"
  using HavokSection_init_Inr [OF assms(1)] assms(2)
  by (auto simp: section_keys_def)

lemma HavokSection_init_needs_domain_keys:
  assumes "HavokSection_init (Dict kv) = Inr s" "map_of kv ''domain'' = Some d"
    "tvalue d = Dict dkv" "k = ''min'' \<or> k = ''max''"
  shows "map_of dkv k \<noteq> None"
  using HavokSection_init_Inr(1) [OF assms(1)] assms(2-4)
  by (auto split: option.splits)

lemma fails_with_python_exception:
  "only_python r \<Longrightarrow> (\<And>v. r \<noteq> Inr v) \<Longrightarrow> \<exists>e. r = Inl e \<and> is_python_exception e"
  by (cases r) auto

lemma HavokGeometry_init_sections:
  "HavokGeometry_init nm mt = Inr g \<Longrightarrow> read_sections mt = Inr (sections g)"
  unfolding HavokGeometry_init_def bindE_eq_Inr by auto

lemma read_sections_all:
  assumes "read_sections mt = Inr ss" "getitem mt ''sections'' = Inr t"
    "elements (tvalue t) = Inr secs" "sec \<in> set secs"
  shows "\<exists>s. HavokSection_init (tvalue sec) = Inr s"
proof -
  from assms(1-3) have "mapE (\<lambda>sec. HavokSection_init (tvalue sec)) secs = Inr ss"
    by (simp add: read_sections_def)
  from mapE_Inr_all [OF this assms(4)] show ?thesis .
qed

text \<open>
  Claim C7, as amended. For every section node that is a mapping in which a key
  the constructor reads (\<open>domain\<close>, \<open>domain.min\<close>, \<open>domain.max\<close>, \<open>codecParms\<close> or
  one of the seven integer offset and count fields) is absent, Section
  construction fails with an exception of Python's own, a \<^verbatim>\<open>KeyError\<close> carrying
  the key alone when nothing read before it fails; it never fails with
  \<open>MalformedTag\<close>. An integer field that is present is stored as it is found,
  whatever its shape. The exception is not recovered locally: the construction
  of a geometry whose mesh tree holds a failing section fails as well.
\<close>

theorem HavokSection_init_absent_key:
  "(k \<in> set section_keys \<and> map_of kv k = None \<longrightarrow>
      (\<exists>e. HavokSection_init (Dict kv) = Inl e \<and> is_python_exception e))
   \<and> (map_of kv ''domain'' = Some d \<and> tvalue d = Dict dkv \<and> (k = ''min'' \<or> k = ''max'') \<and>
       map_of dkv k = None \<longrightarrow>
      (\<exists>e. HavokSection_init (Dict kv) = Inl e \<and> is_python_exception e))
   \<and> (map_of kv ''domain'' = None \<longrightarrow> HavokSection_init (Dict kv) = Inl (KeyError ''domain''))
   \<and> (\<forall>e. HavokSection_init node = Inl e \<longrightarrow> is_python_exception e)
   \<and> (\<forall>s. HavokSection_init (Dict kv) = Inr s \<longrightarrow>
        (\<exists>t. map_of kv ''firstPackedVertexIndex'' = Some t \<and> firstPackedVertexIndex s = tvalue t) \<and>
        (\<exists>t. map_of kv ''firstSharedVertexIndex'' = Some t \<and> firstSharedVertexIndex s = tvalue t) \<and>
        (\<exists>t. map_of kv ''firstPrimitiveIndex'' = Some t \<and> firstPrimitiveIndex s = tvalue t) \<and>
        (\<exists>t. map_of kv ''numPackedVertices'' = Some t \<and> numPackedVertices s = tvalue t) \<and>
        (\<exists>t. map_of kv ''numPrimitives'' = Some t \<and> numPrimitives s = tvalue t) \<and>
        (\<exists>t. map_of kv ''firstDataRunIndex'' = Some t \<and> firstDataRunIndex s = tvalue t) \<and>
        (\<exists>t. map_of kv ''numDataRuns'' = Some t \<and> numDataRuns s = tvalue t))
   \<and> (getitem mt ''sections'' = Inr t \<and> elements (tvalue t) = Inr secs \<and> sec \<in> set secs \<and>
       (\<exists>e. HavokSection_init (tvalue sec) = Inl e) \<longrightarrow>
      (\<exists>e. HavokGeometry_init nm mt = Inl e \<and> is_python_exception e))"
proof (intro conjI impI allI)
  assume "k \<in> set section_keys \<and> map_of kv k = None"
  then have "\<And>s. HavokSection_init (Dict kv) \<noteq> Inr s"
    using HavokSection_init_needs_keys [of kv _ k] by auto
  then show "\<exists>e. HavokSection_init (Dict kv) = Inl e \<and> is_python_exception e"
    by (intro fails_with_python_exception) simp_all
next
  assume "map_of kv ''domain'' = Some d \<and> tvalue d = Dict dkv \<and> (k = ''min'' \<or> k = ''max'') \<and>
       map_of dkv k = None"
  then have "\<And>s. HavokSection_init (Dict kv) \<noteq> Inr s"
    using HavokSection_init_needs_domain_keys [of kv _ d dkv k] by auto
  then show "\<exists>e. HavokSection_init (Dict kv) = Inl e \<and> is_python_exception e"
    by (intro fails_with_python_exception) simp_all
next
  assume "map_of kv ''domain'' = None"
  then show "HavokSection_init (Dict kv) = Inl (KeyError ''domain'')"
    by (simp add: HavokSection_init_def domain_vector_def)
next
  fix e assume "HavokSection_init node = Inl e"
  with only_python_HavokSection_init [of node] show "is_python_exception e" by simp
next
  fix s assume s: "HavokSection_init (Dict kv) = Inr s"
  note r = HavokSection_init_Inr [OF s]
  show "\<exists>t. map_of kv ''firstPackedVertexIndex'' = Some t \<and> firstPackedVertexIndex s = tvalue t" by (rule r)
  show "\<exists>t. map_of kv ''firstSharedVertexIndex'' = Some t \<and> firstSharedVertexIndex s = tvalue t" by (rule r)
  show "\<exists>t. map_of kv ''firstPrimitiveIndex'' = Some t \<and> firstPrimitiveIndex s = tvalue t" by (rule r)
  show "\<exists>t. map_of kv ''numPackedVertices'' = Some t \<and> numPackedVertices s = tvalue t" by (rule r)
  show "\<exists>t. map_of kv ''numPrimitives'' = Some t \<and> numPrimitives s = tvalue t" by (rule r)
  show "\<exists>t. map_of kv ''firstDataRunIndex'' = Some t \<and> firstDataRunIndex s = tvalue t" by (rule r)
  show "\<exists>t. map_of kv ''numDataRuns'' = Some t \<and> numDataRuns s = tvalue t" by (rule r)
next
  assume a: "getitem mt ''sections'' = Inr t \<and> elements (tvalue t) = Inr secs \<and> sec \<in> set secs \<and>
       (\<exists>e. HavokSection_init (tvalue sec) = Inl e)"
  have "\<And>g. HavokGeometry_init nm mt \<noteq> Inr g"
  proof
    fix g assume "HavokGeometry_init nm mt = Inr g"
    from a have "\<exists>s. HavokSection_init (tvalue sec) = Inr s"
      by (intro read_sections_all [OF HavokGeometry_init_sections [OF \<open>HavokGeometry_init nm mt = Inr g\<close>], of t secs sec]) simp_all
    with a show False by auto
  qed
  then show "\<exists>e. HavokGeometry_init nm mt = Inl e \<and> is_python_exception e"
    by (intro fails_with_python_exception) simp_all
qed

theorem HavokSection_init_absent_key_witness:
  "''numDataRuns'' \<in> set section_keys \<and>
   map_of (take 8 example_section_entries) ''numDataRuns'' = None \<and>
   (\<exists>e. HavokSection_init (Dict (take 8 example_section_entries)) = Inl e \<and> is_python_exception e)"
  using HavokSection_init_absent_key [of "''numDataRuns''" "take 8 example_section_entries"]
  by (simp add: section_keys_def example_section_entries_def)

text \<open>
  The claim as stated fails: a section without \<open>numDataRuns\<close> raises
  \<^verbatim>\<open>KeyError\<close>, not \<open>MalformedTag\<close> with a field path, and a section whose
  \<open>numPackedVertices\<close> is a string is constructed without complaint.
\<close>

theorem HavokSection_init_MalformedTag_counterexample:
  "HavokSection_init (Dict (take 8 example_section_entries)) = Inl (KeyError ''numDataRuns'') \<and>
   HavokSection_init (Dict ((''numPackedVertices'', TagObject (StrV ''two'')) # example_section_entries)) =
     Inr \<lparr>HavokSection.domain_min = [0, 0, 0], domain_max = [1, 1, 1],
          codec_params = \<lparr>min_xyz = [0, 0, 0], scale_xyz = [1, 1, 1]\<rparr>,
          firstPackedVertexIndex = IntV 0, firstSharedVertexIndex = IntV 0,
          firstPrimitiveIndex = IntV 0, numPackedVertices = StrV ''two'',
          numPrimitives = IntV 1, firstDataRunIndex = IntV 0, numDataRuns = IntV 0\<rparr>"
  by (simp add: HavokSection_init_def example_section_entries_def domain_node_def floats_def
      domain_vector_def scalar_field_def values_of_def)

subsection \<open>Geometry builder: index resolution\<close>

















subsection \<open>Geometry builder: no range check\<close>

lemma unat_word_of_int_32:
  "0 \<le> k \<Longrightarrow> k < 2 ^ 32 \<Longrightarrow> unat (word_of_int k :: 32 word) = nat k"
  by (simp add: unat_eq_nat_uint uint_word_of_int)

lemma example_sections:
  "read_sections (example_mesh k) = Inr (sections (example_geometry nm k))"
  by (simp add: read_sections_def example_mesh_def example_geometry_def
      HavokSection_init_def example_section_entries_def domain_node_def floats_def
      domain_vector_def scalar_field_def values_of_def)

lemma example_arrays:
  assumes "0 \<le> k" "k + 1 < 2 ^ 32"
  shows "uint32_array (example_mesh k) ''sharedVerticesIndex'' = Inr [word_of_int k]"
    and "uint64_array (example_mesh k) ''sharedVertices'' = Inr [0x1FFFFF]"
    and "uint32_array (example_mesh k) ''packedVertices'' = Inr [0]"
    and "bindE (primitive_rows (example_mesh k)) np_stack = Inr [[0, 1, 1, 1]]"
    and "domain_vector (example_mesh k) ''min'' = Inr [0, 0, 0]"
    and "domain_vector (example_mesh k) ''max'' = Inr [1, 1, 1]"
  using assms
  by (simp_all add: uint32_array_def uint64_array_def example_mesh_def ints_def values_of_def
      primitive_rows_def np_stack_def fits_int64_def domain_vector_def domain_node_def floats_def)


lemma example_decode:
  "decode_section [0] [None, Some (1, 0, 0)] (hd (sections (example_geometry nm k))) =
     Inr [Some (0, 0, 0), Some (1, 0, 0)]"
  by (simp add: decode_section_def example_geometry_def py_slice_def clip_index_def
      unpack_packed_vertices_def decode_packed_def packed_fields_def clip_def
      assign_slice_def)

lemma example_add:
  assumes "0 \<le> k" "k + 1 < 2 ^ 32"
  shows "add_uint32 (Suc 0) (word_of_int k) = 1 + k"
proof -
  have a: "unat (word_of_int k :: 32 word) = nat k"
    using assms by (simp add: unat_word_of_int_32)
  have "(1 + nat k) mod 2 ^ 32 = 1 + nat k"
    using assms by simp
  then show ?thesis
    using assms by (simp add: add_uint32_def a)
qed

lemma example_resolve_corrupt:
  assumes "0 \<le> k" "k + 1 < 2 ^ 32"
  shows "resolve_section (Suc 0) [word_of_int k] [[0, 1, 1, 1]]
           (hd (sections (example_geometry nm k))) = Inr [[0, 1 + k, 1 + k, 1 + k]]"
  using example_add [OF assms]
  by (simp add: resolve_section_def example_geometry_def py_slice_def clip_index_def
      lookup_shared_def index_array_def wrap_int64_def rewrite_entry_def fits_int64_def)

lemma example_HavokGeometry_init:
  assumes "0 \<le> k" "k + 1 < 2 ^ 32"
  shows "HavokGeometry_init nm (example_mesh k) = Inr (example_geometry nm k)"
proof -
  have secs: "sections (example_geometry nm k) = [hd (sections (example_geometry nm k))]"
    by (simp add: example_geometry_def)
  have rows: "\<exists>rows. primitive_rows (example_mesh k) = Inr rows \<and> np_stack rows = Inr [[0, 1, 1, 1]]"
    using example_arrays(4) [OF assms] by (simp add: bindE_eq_Inr)
  then obtain rows where rows: "primitive_rows (example_mesh k) = Inr rows"
    "np_stack rows = Inr [[0, 1, 1, 1]]" by blast
  have loop: "foldE (section_step [0] [word_of_int k])
          ([None, Some (1, 0, 0)], [[0, 1, 1, 1]]) (sections (example_geometry nm k)) =
        Inr ([Some (0, 0, 0), Some (1, 0, 0)], [[0, 1 + k, 1 + k, 1 + k]])"
    by (subst secs) (simp add: section_step_def example_decode example_resolve_corrupt [OF assms])
  show ?thesis
    unfolding HavokGeometry_init_def
    by (simp add: example_arrays [OF assms] rows example_sections [of k nm]
        unpack_shared_vertices_def decode_shared_def shared_fracs_def shared_fields_def loop)
      (simp add: example_geometry_def)
qed


text \<open>
  Claim C5, as amended. When the index rewrite produces a corner index outside
  \<open>[0, len(verts))\<close>, construction does not fail on that account: nothing
  compares an index with the number of vertices, and no \<open>CorruptGeometry\<close>
  error exists. The geometry is returned with the index as computed. For every
  table entry \<open>k\<close> with \<open>1 \<le> k\<close> and \<open>1 + k < 2 ^ 32\<close> the example mesh, which
  has two vertices, is constructed with the corner index \<open>1 + k\<close>. Construction
  fails with exceptions of Python's own only.
\<close>

theorem HavokGeometry_init_no_range_check:
  "(1 \<le> k \<and> k + 1 < 2 ^ 32 \<longrightarrow>
      HavokGeometry_init nm (example_mesh k) = Inr (example_geometry nm k) \<and>
      length (verts (example_geometry nm k)) = 2 \<and>
      primitives (example_geometry nm k) = [[0, 1 + k, 1 + k, 1 + k]])
   \<and> (\<forall>e. HavokGeometry_init nm mt = Inl e \<longrightarrow> is_python_exception e)"
proof (intro conjI impI allI)
  assume "1 \<le> k \<and> k + 1 < 2 ^ 32"
  then show "HavokGeometry_init nm (example_mesh k) = Inr (example_geometry nm k)"
    by (simp add: example_HavokGeometry_init)
next
  show "length (verts (example_geometry nm k)) = 2"
    by (simp add: example_geometry_def)
next
  show "primitives (example_geometry nm k) = [[0, 1 + k, 1 + k, 1 + k]]"
    by (simp add: example_geometry_def)
next
  fix e assume "HavokGeometry_init nm mt = Inl e"
  with only_python_HavokGeometry_init [of nm mt] show "is_python_exception e" by simp
qed

theorem HavokGeometry_init_no_range_check_witness:
  "(1::int) \<le> 7 \<and> (7::int) + 1 < 2 ^ 32 \<and>
   HavokGeometry_init (StrV ''hull'') (example_mesh 7) = Inr (example_geometry (StrV ''hull'') 7) \<and>
   primitives (example_geometry (StrV ''hull'') 7) = [[0, 8, 8, 8]]"
  using HavokGeometry_init_no_range_check [of 7 "StrV ''hull''"]
  by simp

text \<open>
  The claim as stated fails: with table entry 4 the constructor returns a
  geometry of two vertices whose primitive has the corner index 5.
\<close>

theorem HavokGeometry_init_CorruptGeometry_counterexample:
  "HavokGeometry_init (StrV ''hull'') (example_mesh 4) = Inr (example_geometry (StrV ''hull'') 4) \<and>
   primitives (example_geometry (StrV ''hull'') 4) = [[0, 5, 5, 5]] \<and>
   length (verts (example_geometry (StrV ''hull'') 4)) = 2"
  by (simp add: example_HavokGeometry_init) (simp add: example_geometry_def)

subsection \<open>Geometry builder: the vertex array\<close>

lemma foldE_section_step_verts:
  "foldE (section_step packed svi) st secs = Inr st' \<Longrightarrow>
   foldE (decode_section packed) (fst st) secs = Inr (fst st')"
proof (induction secs arbitrary: st)
  case Nil
  then show ?case by simp
next
  case (Cons s secs)
  from Cons.prems obtain st1 where
    st1: "section_step packed svi st s = Inr st1"
    and rest: "foldE (section_step packed svi) st1 secs = Inr st'"
    by (auto simp: bindE_eq_Inr)
  from st1 have "decode_section packed (fst st) s = Inr (fst st1)"
    by (auto simp: section_step_def bindE_eq_Inr)
  with Cons.IH [OF rest] show ?case by simp
qed

lemma as_int_Inr: "as_int p = Inr i \<longleftrightarrow> p = IntV i"
  by (cases p) auto

text \<open>One section that owns nothing leaves the vertices alone.\<close>

lemma decode_section_empty:
  assumes "decode_section packed vs s = Inr vs'" "\<forall>i. \<not> owns s i"
  shows "vs' = vs"
proof -
  from assms(1) obtain n where n: "numPackedVertices s = IntV n"
    by (auto simp: decode_section_def bindE_eq_Inr as_int_Inr)
  show ?thesis
  proof (cases "0 < n")
    case False
    with assms(1) n show ?thesis by (simp add: decode_section_def)
  next
    case True
    with assms(1) n obtain f where f: "firstPackedVertexIndex s = IntV f"
      by (auto simp: decode_section_def bindE_eq_Inr as_int_Inr)
    with n True have "owns s f" by (simp add: owns_def)
    with assms(2) show ?thesis by blast
  qed
qed

lemma unpack_packed_vertices_nth:
  assumes "unpack_packed_vertices ps codec lo hi = Inr dec" "i < length ps"
  shows "length dec = length ps"
    and "unpack_packed_vertices [ps ! i] codec lo hi = Inr [dec ! i]"
  using assms by (auto simp: unpack_packed_vertices_def bindE_eq_Inr)

text \<open>One section whose range lies inside the packed array.\<close>

lemma decode_section_range:
  assumes ok: "decode_section packed vs s = Inr vs'"
    and f: "firstPackedVertexIndex s = IntV f" and n: "numPackedVertices s = IntV n"
    and pos: "0 < n" and lo: "0 \<le> f" and hi: "f + n \<le> int (length packed)"
    and len: "length packed \<le> length vs"
  shows "length vs' = length vs"
    and "\<And>i. i < length vs \<Longrightarrow> \<not> owns s (int i) \<Longrightarrow> vs' ! i = vs ! i"
    and "\<And>i. owns s (int i) \<Longrightarrow>
           \<exists>v. unpack_packed_vertices [packed ! i] (codec_params s)
                 (HavokSection.domain_min s) (HavokSection.domain_max s) = Inr [v] \<and>
               vs' ! i = Some v"
proof -
  define a where "a = nat f"
  define m where "m = nat n"
  have am: "a + m \<le> length packed" "int a = f" "int m = n" "0 < m"
    using pos lo hi by (simp_all add: a_def m_def)
  have c1: "clip_index (length packed) f = a" "clip_index (length packed) (f + n) = a + m"
    using am lo pos by (simp_all add: clip_index_def a_def m_def nat_add_distrib)
  have c2: "clip_index (length vs) f = a" "clip_index (length vs) (f + n) = a + m"
    using am lo pos len by (simp_all add: clip_index_def a_def m_def nat_add_distrib)
  have slice: "py_slice packed f (f + n) = take m (drop a packed)"
    by (simp add: py_slice_def c1)
  from ok f n pos obtain dec where
    dec: "unpack_packed_vertices (take m (drop a packed)) (codec_params s)
            (HavokSection.domain_min s) (HavokSection.domain_max s) = Inr dec"
    and asg: "assign_slice vs f (f + n) (map Some dec) = Inr vs'"
    by (auto simp: decode_section_def bindE_eq_Inr slice)
  have ldec: "length dec = m"
    using dec am by (auto simp: unpack_packed_vertices_def bindE_eq_Inr)
  from asg have vs': "vs' = take a vs @ map Some dec @ drop (a + m) vs"
    by (simp add: assign_slice_def c2 ldec)
  have owns_iff: "owns s (int i) \<longleftrightarrow> a \<le> i \<and> i < a + m" for i
    using am by (auto simp: owns_def f n)
  show "length vs' = length vs"
    using am len by (simp add: vs' ldec)
  show "vs' ! i = vs ! i" if "i < length vs" "\<not> owns s (int i)" for i
  proof (cases "i < a")
    case True
    with am len show ?thesis by (simp add: vs' nth_append)
  next
    case False
    with that owns_iff have ge: "a \<le> i" "m \<le> i - a" by simp_all
    have "vs' ! i = (map Some dec @ drop (a + m) vs) ! (i - a)"
      using ge am len by (simp add: vs' nth_append)
    also have "\<dots> = drop (a + m) vs ! (i - a - m)"
      using ge by (simp add: nth_append ldec)
    also have "\<dots> = vs ! i"
      using ge that am len by simp
    finally show ?thesis .
  qed
  show "\<exists>v. unpack_packed_vertices [packed ! i] (codec_params s)
                 (HavokSection.domain_min s) (HavokSection.domain_max s) = Inr [v] \<and>
               vs' ! i = Some v" if "owns s (int i)" for i
  proof -
    from that owns_iff have i: "a \<le> i" "i < a + m" by simp_all
    then have j: "i - a < length (take m (drop a packed))"
      using am by simp
    from i am have nth: "take m (drop a packed) ! (i - a) = packed ! i"
      by simp
    from unpack_packed_vertices_nth(2) [OF dec j]
    have "unpack_packed_vertices [packed ! i] (codec_params s)
            (HavokSection.domain_min s) (HavokSection.domain_max s) = Inr [dec ! (i - a)]"
      by (simp only: nth)
    moreover have "vs' ! i = Some (dec ! (i - a))"
    proof -
      from i have k: "i - a < m" by simp
      have "vs' ! i = (map Some dec @ drop (a + m) vs) ! (i - a)"
        using i am len by (simp add: vs' nth_append)
      also have "\<dots> = Some (dec ! (i - a))"
        using k by (simp add: nth_append ldec)
      finally show ?thesis .
    qed
    ultimately show ?thesis by blast
  qed
qed


lemma owns_fields:
  assumes "owns s i"
  obtains f n where "firstPackedVertexIndex s = IntV f" "numPackedVertices s = IntV n"
    "f \<le> i" "i < f + n"
  using assms by (auto simp: owns_def split: payload.splits)

lemma decode_section_step:
  assumes ok: "decode_section packed vs s = Inr vs'"
    and inside: "\<forall>i. owns s i \<longrightarrow> 0 \<le> i \<and> i < int (length packed)"
    and len: "length packed \<le> length vs"
  shows "length vs' = length vs"
    and "\<And>i. i < length vs \<Longrightarrow> \<not> owns s (int i) \<Longrightarrow> vs' ! i = vs ! i"
    and "\<And>i. owns s (int i) \<Longrightarrow>
           \<exists>v. unpack_packed_vertices [packed ! i] (codec_params s)
                 (HavokSection.domain_min s) (HavokSection.domain_max s) = Inr [v] \<and>
               vs' ! i = Some v"
proof -
  consider (none) "\<forall>i. \<not> owns s i" | (some) i0 where "owns s i0" by blast
  then have "length vs' = length vs \<and>
    (\<forall>i. i < length vs \<longrightarrow> \<not> owns s (int i) \<longrightarrow> vs' ! i = vs ! i) \<and>
    (\<forall>i. owns s (int i) \<longrightarrow>
           (\<exists>v. unpack_packed_vertices [packed ! i] (codec_params s)
                 (HavokSection.domain_min s) (HavokSection.domain_max s) = Inr [v] \<and>
               vs' ! i = Some v))"
  proof cases
    case none
    with decode_section_empty [OF ok] show ?thesis by simp
  next
    case some
    then obtain f n where fn: "firstPackedVertexIndex s = IntV f" "numPackedVertices s = IntV n"
      "f \<le> i0" "i0 < f + n"
      by (rule owns_fields)
    then have pos: "0 < n" by simp
    with fn have "owns s f" "owns s (f + n - 1)" by (simp_all add: owns_def)
    with inside have lo: "0 \<le> f" and hi: "f + n \<le> int (length packed)"
      by force+
    from decode_section_range [OF ok fn(1,2) pos lo hi len] show ?thesis by blast
  qed
  then show "length vs' = length vs"
    and "\<And>i. i < length vs \<Longrightarrow> \<not> owns s (int i) \<Longrightarrow> vs' ! i = vs ! i"
    and "\<And>i. owns s (int i) \<Longrightarrow>
           \<exists>v. unpack_packed_vertices [packed ! i] (codec_params s)
                 (HavokSection.domain_min s) (HavokSection.domain_max s) = Inr [v] \<and>
               vs' ! i = Some v"
    by blast+
qed

lemma decode_sections_fold:
  assumes "foldE (decode_section packed) vs secs = Inr vs'"
    and "length packed \<le> length vs"
    and "\<forall>s \<in> set secs. \<forall>i. owns s i \<longrightarrow> 0 \<le> i \<and> i < int (length packed)"
    and "disjoint_ranges secs"
  shows "length vs' = length vs \<and>
    (\<forall>i. i < length vs \<longrightarrow> (\<forall>s \<in> set secs. \<not> owns s (int i)) \<longrightarrow> vs' ! i = vs ! i) \<and>
    (\<forall>s \<in> set secs. \<forall>i. owns s (int i) \<longrightarrow>
       (\<exists>v. unpack_packed_vertices [packed ! i] (codec_params s)
                 (HavokSection.domain_min s) (HavokSection.domain_max s) = Inr [v] \<and>
             vs' ! i = Some v))"
  using assms
proof (induction secs arbitrary: vs)
  case Nil
  then show ?case by simp
next
  case (Cons s secs)
  from Cons.prems(1) obtain vs1 where
    step: "decode_section packed vs s = Inr vs1"
    and rest: "foldE (decode_section packed) vs1 secs = Inr vs'"
    by (auto simp: bindE_eq_Inr)
  from Cons.prems(3) have inside_s: "\<forall>i. owns s i \<longrightarrow> 0 \<le> i \<and> i < int (length packed)"
    and inside_rest: "\<forall>s \<in> set secs. \<forall>i. owns s i \<longrightarrow> 0 \<le> i \<and> i < int (length packed)"
    by simp_all
  from Cons.prems(4) have apart: "\<And>t i. t \<in> set secs \<Longrightarrow> owns s i \<Longrightarrow> \<not> owns t i"
    and disj: "disjoint_ranges secs"
    by auto
  note one = decode_section_step [OF step inside_s Cons.prems(2)]
  from one(1) Cons.prems(2) have len1: "length packed \<le> length vs1" by simp
  from Cons.IH [OF rest len1 inside_rest disj]
  have ih: "length vs' = length vs1"
    "\<And>i. i < length vs1 \<Longrightarrow> (\<forall>s \<in> set secs. \<not> owns s (int i)) \<Longrightarrow> vs' ! i = vs1 ! i"
    "\<And>t i. t \<in> set secs \<Longrightarrow> owns t (int i) \<Longrightarrow>
       \<exists>v. unpack_packed_vertices [packed ! i] (codec_params t)
                 (HavokSection.domain_min t) (HavokSection.domain_max t) = Inr [v] \<and>
             vs' ! i = Some v"
    by blast+
  have a: "length vs' = length vs" using ih(1) one(1) by simp
  have b: "vs' ! i = vs ! i" if "i < length vs" "\<forall>t \<in> set (s # secs). \<not> owns t (int i)" for i
    using that ih(2) [of i] one(1) one(2) [of i] by simp
  have c: "\<exists>v. unpack_packed_vertices [packed ! i] (codec_params t)
                 (HavokSection.domain_min t) (HavokSection.domain_max t) = Inr [v] \<and>
             vs' ! i = Some v" if "t \<in> set (s # secs)" "owns t (int i)" for t i
  proof (cases "t \<in> set secs")
    case True
    with that ih(3) show ?thesis by blast
  next
    case False
    with that have t: "t = s" by simp
    with that have o: "owns s (int i)" by simp
    with inside_s Cons.prems(2) one(1) have i: "i < length vs1" by force
    from o apart have "\<forall>u \<in> set secs. \<not> owns u (int i)" by blast
    with ih(2) [OF i] have "vs' ! i = vs1 ! i" by simp
    with one(3) [OF o] show ?thesis by (simp add: t)
  qed
  from a b c show ?case by blast
qed

lemma disjoint_ranges_unique:
  "disjoint_ranges ss \<Longrightarrow> s \<in> set ss \<Longrightarrow> t \<in> set ss \<Longrightarrow> owns s i \<Longrightarrow> owns t i \<Longrightarrow> s = t"
  by (induction ss) auto


lemma HavokGeometry_init_Inr:
  assumes "HavokGeometry_init nm mt = Inr g"
  obtains sv prims0 st where
    "unpack_shared_vertices (sharedVertices g) (domain_min g) (domain_max g) = Inr sv"
    "foldE (section_step (packedVertices g) (sharedVerticesIndex g))
       (replicate (length (packedVertices g)) None @ map Some sv, prims0) (sections g) = Inr st"
    "verts g = fst st" "primitives g = snd st" "name g = nm"
proof -
  from assms obtain dmin dmax rows prims svi secs shared packed sv st where
    sv: "unpack_shared_vertices shared dmin dmax = Inr sv"
    and loop: "foldE (section_step packed svi)
              (replicate (length packed) None @ map Some sv, prims) secs = Inr st"
    and g: "g = \<lparr>name = nm, domain_min = dmin, domain_max = dmax, primitives = snd st,
            sharedVertices = shared, sharedVerticesIndex = svi, packedVertices = packed,
            sections = secs, verts = fst st\<rparr>"
    unfolding HavokGeometry_init_def bindE_eq_Inr by blast
  show ?thesis
    by (rule that [of sv prims st]) (simp_all add: g sv loop)
qed

lemma unpack_shared_vertices_nth:
  assumes "unpack_shared_vertices ss lo hi = Inr sv" "j < length ss"
  shows "length sv = length ss"
    and "unpack_shared_vertices [ss ! j] lo hi = Inr [sv ! j]"
  using assms by (auto simp: unpack_shared_vertices_def bindE_eq_Inr)

lemma unpack_shared_vertices_length:
  "unpack_shared_vertices ss lo hi = Inr sv \<Longrightarrow> length sv = length ss"
  by (auto simp: unpack_shared_vertices_def bindE_eq_Inr)

text \<open>
  Claim C9. For every geometry whose sections' packed-vertex ranges are
  pairwise disjoint and cover \<open>[0, len(packedVertices))\<close> exactly, \<open>verts\<close> has
  \<open>len(packedVertices) + len(sharedVertices)\<close> rows; row \<open>i\<close> below
  \<open>len(packedVertices)\<close> holds packed vertex \<open>i\<close> decoded with the codec and the
  domain of the one section that owns \<open>i\<close>, and row \<open>len(packedVertices) + j\<close>
  holds shared vertex \<open>j\<close> decoded with the domain of the geometry.
\<close>

theorem HavokGeometry_init_verts:
  assumes ok: "HavokGeometry_init nm mt = Inr g"
    and disjoint: "disjoint_ranges (sections g)"
    and cover: "\<forall>i. (\<exists>s \<in> set (sections g). owns s i) \<longleftrightarrow>
                    0 \<le> i \<and> i < int (length (packedVertices g))"
  shows "length (verts g) = length (packedVertices g) + length (sharedVertices g) \<and>
    (\<forall>i < length (packedVertices g). \<exists>s \<in> set (sections g).
        owns s (int i) \<and> (\<forall>t \<in> set (sections g). owns t (int i) \<longrightarrow> t = s) \<and>
        (\<exists>v. unpack_packed_vertices [packedVertices g ! i] (codec_params s)
                (HavokSection.domain_min s) (HavokSection.domain_max s) = Inr [v] \<and>
              verts g ! i = Some v)) \<and>
    (\<forall>j < length (sharedVertices g).
        \<exists>v. unpack_shared_vertices [sharedVertices g ! j] (domain_min g) (domain_max g) = Inr [v] \<and>
            verts g ! (length (packedVertices g) + j) = Some v)"
proof -
  define P where "P = length (packedVertices g)"
  from ok obtain sv prims0 st where
    sv: "unpack_shared_vertices (sharedVertices g) (domain_min g) (domain_max g) = Inr sv"
    and loop: "foldE (section_step (packedVertices g) (sharedVerticesIndex g))
       (replicate P None @ map Some sv, prims0) (sections g) = Inr st"
    and verts: "verts g = fst st"
    unfolding P_def by (rule HavokGeometry_init_Inr)
  define vs0 where "vs0 = replicate P None @ map Some sv"
  have lsv: "length sv = length (sharedVertices g)"
    using sv by (rule unpack_shared_vertices_length)
  have len0: "length vs0 = P + length (sharedVertices g)"
    by (simp add: vs0_def lsv)
  from foldE_section_step_verts [OF loop]
  have fold: "foldE (decode_section (packedVertices g)) vs0 (sections g) = Inr (verts g)"
    by (simp add: vs0_def verts)
  have inside: "\<forall>s \<in> set (sections g). \<forall>i. owns s i \<longrightarrow> 0 \<le> i \<and> i < int (length (packedVertices g))"
    using cover by blast
  have "length (packedVertices g) \<le> length vs0"
    by (simp add: len0 P_def)
  from decode_sections_fold [OF fold this inside disjoint]
  have r: "length (verts g) = length vs0"
    "\<And>i. i < length vs0 \<Longrightarrow> (\<forall>s \<in> set (sections g). \<not> owns s (int i)) \<Longrightarrow> verts g ! i = vs0 ! i"
    "\<And>s i. s \<in> set (sections g) \<Longrightarrow> owns s (int i) \<Longrightarrow>
       \<exists>v. unpack_packed_vertices [packedVertices g ! i] (codec_params s)
                 (HavokSection.domain_min s) (HavokSection.domain_max s) = Inr [v] \<and>
             verts g ! i = Some v"
    by blast+
  have one: "length (verts g) = length (packedVertices g) + length (sharedVertices g)"
    using r(1) len0 by (simp add: P_def)
  have two: "\<exists>s \<in> set (sections g).
        owns s (int i) \<and> (\<forall>t \<in> set (sections g). owns t (int i) \<longrightarrow> t = s) \<and>
        (\<exists>v. unpack_packed_vertices [packedVertices g ! i] (codec_params s)
                (HavokSection.domain_min s) (HavokSection.domain_max s) = Inr [v] \<and>
              verts g ! i = Some v)" if "i < length (packedVertices g)" for i
  proof -
    from that cover obtain s where s: "s \<in> set (sections g)" "owns s (int i)"
      by (metis of_nat_0_le_iff of_nat_less_iff)
    have "\<forall>t \<in> set (sections g). owns t (int i) \<longrightarrow> t = s"
      using disjoint_ranges_unique [OF disjoint _ s(1) _ s(2)] by blast
    with s r(3) [OF s] show ?thesis by blast
  qed
  have three: "\<exists>v. unpack_shared_vertices [sharedVertices g ! j] (domain_min g) (domain_max g) = Inr [v] \<and>
            verts g ! (length (packedVertices g) + j) = Some v" if "j < length (sharedVertices g)" for j
  proof -
    have "\<not> (0 \<le> int (P + j) \<and> int (P + j) < int (length (packedVertices g)))"
      by (simp add: P_def)
    with cover have "\<forall>s \<in> set (sections g). \<not> owns s (int (P + j))"
      by blast
    moreover have "P + j < length vs0" using that by (simp add: len0)
    ultimately have "verts g ! (P + j) = vs0 ! (P + j)" by (rule r(2) [rotated])
    also have "\<dots> = Some (sv ! j)"
      using that by (simp add: vs0_def nth_append lsv)
    finally have "verts g ! (length (packedVertices g) + j) = Some (sv ! j)"
      by (simp add: P_def)
    with unpack_shared_vertices_nth(2) [OF sv that] show ?thesis
      by blast
  qed
  from one two three show ?thesis by blast
qed


theorem HavokGeometry_init_verts_witness:
  "HavokGeometry_init (StrV ''hull'') (example_mesh 0) = Inr (example_geometry (StrV ''hull'') 0) \<and>
   disjoint_ranges (sections (example_geometry (StrV ''hull'') 0)) \<and>
   (\<forall>i. (\<exists>s \<in> set (sections (example_geometry (StrV ''hull'') 0)). owns s i) = (0 \<le> i \<and> i < 1)) \<and>
   length (verts (example_geometry (StrV ''hull'') 0)) = 2 \<and>
   verts (example_geometry (StrV ''hull'') 0) ! 0 = Some (0, 0, 0) \<and>
   verts (example_geometry (StrV ''hull'') 0) ! 1 = Some (1, 0, 0)"
  using HavokGeometry_init_verts [of "StrV ''hull''" "example_mesh 0" "example_geometry (StrV ''hull'') 0"]
    example_HavokGeometry_init [of 0 "StrV ''hull''"]
  by (simp add: example_geometry_def owns_def)

subsection \<open>Extractor: the loops against the specification\<close>

lemma HavokGeometry_init_name: "HavokGeometry_init nm mt = Inr g \<Longrightarrow> name g = nm"
  by (erule HavokGeometry_init_Inr)

lemma extract_body_Inr:
  assumes "extract_body out b = Inr out'"
  shows "if has_shape_data b then \<exists>g. built_from b g \<and> out' = out @ [g] else out' = out"
proof -
  from assms obtain sh shape has_data where
    sh: "getitem (tvalue b) ''shape'' = Inr sh" "attr_value (tvalue sh) = Inr shape"
      "contains ''data'' shape = Inr has_data"
    and rest: "(if has_data then
         bindE (getitem (tvalue b) ''name'') (\<lambda>nm.
         bindE (getitem shape ''data'') (\<lambda>d.
         bindE (attr_value (tvalue d)) (\<lambda>data.
         bindE (getitem data ''meshTree'') (\<lambda>mt.
         bindE (HavokGeometry_init (tvalue nm) (tvalue mt)) (\<lambda>g.
           Inr (out @ [g]))))))
       else Inr out) = Inr out'"
    unfolding extract_body_def bindE_eq_Inr by blast
  have shape: "body_shape b = Some shape"
    by (simp add: body_shape_def sh)
  show ?thesis
  proof (cases has_data)
    case False
    with rest sh shape show ?thesis by (simp add: has_shape_data_def)
  next
    case True
    with rest obtain nm d data mt g where
      p: "getitem (tvalue b) ''name'' = Inr nm" "getitem shape ''data'' = Inr d"
        "attr_value (tvalue d) = Inr data" "getitem data ''meshTree'' = Inr mt"
        "HavokGeometry_init (tvalue nm) (tvalue mt) = Inr g" "out' = out @ [g]"
      by (auto simp: bindE_eq_Inr)
    have "built_from b g"
      using p HavokGeometry_init_name [OF p(5)]
      by (simp add: built_from_def body_name_def body_mesh_tree_def shape)
    with True sh shape p(6) show ?thesis by (simp add: has_shape_data_def)
  qed
qed

lemma extract_bodies_Inr:
  "foldE extract_body out bodies = Inr out' \<Longrightarrow>
   \<exists>gs. out' = out @ gs \<and> list_all2 built_from (filter has_shape_data bodies) gs"
proof (induction bodies arbitrary: out)
  case Nil
  then show ?case by simp
next
  case (Cons b bodies)
  from Cons.prems obtain out1 where
    one: "extract_body out b = Inr out1" and rest: "foldE extract_body out1 bodies = Inr out'"
    by (auto simp: bindE_eq_Inr)
  from Cons.IH [OF rest] obtain gs where
    gs: "out' = out1 @ gs" "list_all2 built_from (filter has_shape_data bodies) gs"
    by blast
  show ?case
  proof (cases "has_shape_data b")
    case True
    with extract_body_Inr [OF one] obtain g where "built_from b g" "out1 = out @ [g]"
      by auto
    with gs True have "out' = out @ (g # gs) \<and>
        list_all2 built_from (filter has_shape_data (b # bodies)) (g # gs)"
      by simp
    then show ?thesis by blast
  next
    case False
    with extract_body_Inr [OF one] have "out1 = out" by simp
    with gs False show ?thesis by auto
  qed
qed

lemma extract_resource_Inr:
  assumes "extract_resource out val = Inr out'"
  shows "\<exists>gs. out' = out @ gs \<and>
     list_all2 built_from
       (filter has_shape_data
          (if resource_name val = Some (StrV ''Collision Physics Data'')
           then resource_bodies val else [])) gs"
proof -
  from assms obtain v nm where
    v: "attr_value (tvalue val) = Inr v" "getitem v ''name'' = Inr nm"
    and rest: "(if tvalue nm \<noteq> StrV ''Collision Physics Data'' then Inr out
       else
         bindE (getitem v ''variant'') (\<lambda>var.
         bindE (attr_value (tvalue var)) (\<lambda>subVal.
         bindE (contains ''bodyCinfos'' subVal) (\<lambda>has_bodies.
           if has_bodies then
             bindE (getitem subVal ''bodyCinfos'') (\<lambda>bc.
             bindE (elements (tvalue bc)) (\<lambda>bodies.
               foldE extract_body out bodies))
           else Inr out)))) = Inr out'"
    unfolding extract_resource_def bindE_eq_Inr by blast
  have nm: "resource_name val = Some (tvalue nm)"
    by (simp add: resource_name_def v)
  show ?thesis
  proof (cases "tvalue nm = StrV ''Collision Physics Data''")
    case False
    with rest nm show ?thesis by simp
  next
    case True
    with rest obtain var subVal has_bodies where
      q: "getitem v ''variant'' = Inr var" "attr_value (tvalue var) = Inr subVal"
        "contains ''bodyCinfos'' subVal = Inr has_bodies"
      and rest2: "(if has_bodies then
             bindE (getitem subVal ''bodyCinfos'') (\<lambda>bc.
             bindE (elements (tvalue bc)) (\<lambda>bodies.
               foldE extract_body out bodies))
           else Inr out) = Inr out'"
      by (auto simp: bindE_eq_Inr)
    show ?thesis
    proof (cases has_bodies)
      case False
      with rest2 have "out' = out" by simp
      moreover have "resource_bodies val = []"
        using False by (simp add: resource_bodies_def v q)
      ultimately show ?thesis by simp
    next
      case has: True
      with rest2 obtain bc bodies where
        b: "getitem subVal ''bodyCinfos'' = Inr bc" "elements (tvalue bc) = Inr bodies"
          "foldE extract_body out bodies = Inr out'"
        by (auto simp: bindE_eq_Inr)
      have "resource_bodies val = bodies"
        using has by (simp add: resource_bodies_def v q b)
      with extract_bodies_Inr [OF b(3)] True nm show ?thesis by simp
    qed
  qed
qed

lemma extract_resources_Inr:
  "foldE extract_resource out vals = Inr out' \<Longrightarrow>
   \<exists>gs. out' = out @ gs \<and> list_all2 built_from (qualifying_bodies vals) gs"
proof (induction vals arbitrary: out)
  case Nil
  then show ?case by (simp add: qualifying_bodies_def)
next
  case (Cons val vals)
  from Cons.prems obtain out1 where
    one: "extract_resource out val = Inr out1"
    and rest: "foldE extract_resource out1 vals = Inr out'"
    by (auto simp: bindE_eq_Inr)
  from extract_resource_Inr [OF one] obtain gs1 where
    gs1: "out1 = out @ gs1"
      "list_all2 built_from
        (filter has_shape_data
          (if resource_name val = Some (StrV ''Collision Physics Data'')
           then resource_bodies val else [])) gs1"
    by blast
  from Cons.IH [OF rest] obtain gs where
    gs: "out' = out1 @ gs" "list_all2 built_from (qualifying_bodies vals) gs"
    by blast
  have "qualifying_bodies (val # vals) =
      filter has_shape_data
          (if resource_name val = Some (StrV ''Collision Physics Data'')
           then resource_bodies val else []) @ qualifying_bodies vals"
    by (simp add: qualifying_bodies_def)
  with gs1 gs have "out' = out @ (gs1 @ gs) \<and>
      list_all2 built_from (qualifying_bodies (val # vals)) (gs1 @ gs)"
    by (simp add: list_all2_appendI)
  then show ?case by blast
qed

subsection \<open>Extractor: the two assertions\<close>

text \<open>
  Claim C10. \<open>read_geoms_from_havok\<close> fails with an assertion error, before
  any geometry is constructed, unless the stream is an Object-type tag file and
  the \<open>namedVariants\<close> sequence of the root tag has exactly one element. When
  both hold the assertions pass and extraction proceeds with the resource
  handles. A root tag with no or with several named variants is a crash, not an
  empty result.
\<close>

theorem read_geoms_from_havok_assertions:
  "(checkIO f = Inr ft \<and> ft \<noteq> Object \<longrightarrow> read_geoms_from_havok f = Inl AssertionError)
   \<and> (map_of kv ''namedVariants'' = Some (TagObject (Seq xs)) \<longrightarrow>
        read_geoms_from_havok \<lparr>checkIO = Inr ft, fromIO = Inr (TagObject (Dict kv))\<rparr> =
          (if ft = Object \<and> length xs = 1
           then bindE (resource_handles (TagObject (Dict kv))) (foldE extract_resource [])
           else Inl AssertionError))"
  by (simp add: read_geoms_from_havok_def)

theorem read_geoms_from_havok_assertions_witness:
  "map_of [(''namedVariants'', TagObject (Seq []))] ''namedVariants'' = Some (TagObject (Seq []))
   \<and> read_geoms_from_havok
        \<lparr>checkIO = Inr Object, fromIO = Inr (TagObject (Dict [(''namedVariants'', TagObject (Seq []))]))\<rparr>
      = Inl AssertionError
   \<and> checkIO \<lparr>checkIO = Inr OtherFileType, fromIO = Inl ValueError\<rparr> = Inr OtherFileType
   \<and> read_geoms_from_havok \<lparr>checkIO = Inr OtherFileType, fromIO = Inl ValueError\<rparr> = Inl AssertionError"
  using read_geoms_from_havok_assertions
          [of "\<lparr>checkIO = Inr OtherFileType, fromIO = Inl ValueError\<rparr>" OtherFileType
              "[(''namedVariants'', TagObject (Seq []))]" "[]"]
        read_geoms_from_havok_assertions
          [of "\<lparr>checkIO = Inr OtherFileType, fromIO = Inl ValueError\<rparr>" Object
              "[(''namedVariants'', TagObject (Seq []))]" "[]"]
  by simp

subsection \<open>Extractor: filtering\<close>

lemma read_geoms_from_havok_Inr:
  assumes "read_geoms_from_havok f = Inr out"
  obtains root_tag vals where "checkIO f = Inr Object" "fromIO f = Inr root_tag"
    "resource_handles root_tag = Inr vals"
    "list_all2 built_from (qualifying_bodies vals) out"
proof -
  from assms obtain ft root_tag nv n vals where
    p: "checkIO f = Inr ft" "ft = Object" "fromIO f = Inr root_tag"
      "resource_handles root_tag = Inr vals" "foldE extract_resource [] vals = Inr out"
    by (auto simp: read_geoms_from_havok_def bindE_eq_Inr split: if_splits)
  from extract_resources_Inr [OF p(5)] have "list_all2 built_from (qualifying_bodies vals) out"
    by simp
  with p show ?thesis by (intro that [of root_tag vals]) simp_all
qed

lemma extract_body_skip:
  assumes "body_shape b = Some shape" "contains ''data'' shape = Inr False"
  shows "extract_body out b = Inr out"
proof -
  from assms(1) obtain sh where "getitem (tvalue b) ''shape'' = Inr sh"
    "attr_value (tvalue sh) = Inr shape"
    by (auto simp: body_shape_def bindE_def split: sum.splits)
  with assms(2) show ?thesis by (simp add: extract_body_def)
qed

lemma extract_resource_skip:
  assumes "resource_name val = Some nm" "nm \<noteq> StrV ''Collision Physics Data''"
  shows "extract_resource out val = Inr out"
proof -
  from assms(1) obtain v t where "attr_value (tvalue val) = Inr v" "getitem v ''name'' = Inr t"
    "tvalue t = nm"
    by (auto simp: resource_name_def bindE_def split: sum.splits)
  with assms(2) show ?thesis by (simp add: extract_resource_def)
qed

lemma extract_resources_skip:
  "\<forall>val \<in> set vals. \<exists>nm. resource_name val = Some nm \<and> nm \<noteq> StrV ''Collision Physics Data''
   \<Longrightarrow> foldE extract_resource out vals = Inr out"
  by (induction vals) (auto simp: extract_resource_skip)

lemma resource_handles_root_node [simp]:
  "resource_handles (root_node resources) = Inr resources"
  by (simp add: resource_handles_def root_node_def)

lemma read_root_node:
  "read_geoms_from_havok (object_stream (root_node resources)) = foldE extract_resource [] resources"
  by (simp add: read_geoms_from_havok_def object_stream_def root_node_def resource_handles_def)

lemma extract_body_node_data:
  "extract_body out (body_node nm (Some mt)) =
     bindE (HavokGeometry_init (StrV nm) mt) (\<lambda>g. Inr (out @ [g]))"
  by (simp add: extract_body_def body_node_def)

lemma extract_body_node_no_data:
  "extract_body out (body_node nm None) = Inr out"
  by (simp add: extract_body_def body_node_def)

lemma extract_resource_node:
  "extract_resource out (resource_node nm bodies) =
     (if nm = ''Collision Physics Data'' then foldE extract_body out bodies else Inr out)"
  by (simp add: extract_resource_def resource_node_def)

text \<open>
  Claim C8. \<open>read_geoms_from_havok\<close> returns exactly one geometry for every body
  that lies in the \<open>bodyCinfos\<close> sequence of a resource entry whose name is the
  string \<^verbatim>\<open>Collision Physics Data\<close> and that has \<open>shape.data\<close>, in the order of
  the tree; the geometry is named from the body's \<open>name\<close> and built from its
  \<open>shape.data.meshTree\<close>. A body whose shape has no data is skipped without
  error, and when no resource entry has that name the result is the empty list.
  Two resource entries of which one matches and holds a body with shape data
  and a body without give exactly one geometry.
\<close>

theorem read_geoms_from_havok_spec:
  "(read_geoms_from_havok f = Inr out \<longrightarrow>
      (\<exists>root_tag vals. fromIO f = Inr root_tag \<and> resource_handles root_tag = Inr vals \<and>
         list_all2 built_from (qualifying_bodies vals) out \<and>
         length out = length (qualifying_bodies vals)))
   \<and> (body_shape b = Some shape \<and> contains ''data'' shape = Inr False \<longrightarrow>
        extract_body out0 b = Inr out0)
   \<and> ((\<forall>val \<in> set resources.
         \<exists>nm. resource_name val = Some nm \<and> nm \<noteq> StrV ''Collision Physics Data'') \<longrightarrow>
        read_geoms_from_havok (object_stream (root_node resources)) = Inr [])
   \<and> (other \<noteq> ''Collision Physics Data'' \<and> HavokGeometry_init (StrV nm) mt = Inr g \<longrightarrow>
        read_geoms_from_havok (object_stream (root_node
          [resource_node other bodies,
           resource_node ''Collision Physics Data'' [body_node nm (Some mt), body_node nm' None]]))
        = Inr [g])"
proof (intro conjI impI)
  assume "read_geoms_from_havok f = Inr out"
  then obtain root_tag vals where "fromIO f = Inr root_tag"
    "resource_handles root_tag = Inr vals"
    "list_all2 built_from (qualifying_bodies vals) out"
    by (rule read_geoms_from_havok_Inr)
  then show "\<exists>root_tag vals. fromIO f = Inr root_tag \<and> resource_handles root_tag = Inr vals \<and>
         list_all2 built_from (qualifying_bodies vals) out \<and>
         length out = length (qualifying_bodies vals)"
    by (auto dest: list_all2_lengthD)
next
  assume "body_shape b = Some shape \<and> contains ''data'' shape = Inr False"
  then show "extract_body out0 b = Inr out0"
    by (simp add: extract_body_skip)
next
  assume "\<forall>val \<in> set resources.
         \<exists>nm. resource_name val = Some nm \<and> nm \<noteq> StrV ''Collision Physics Data''"
  then show "read_geoms_from_havok (object_stream (root_node resources)) = Inr []"
    by (simp add: read_root_node extract_resources_skip)
next
  assume "other \<noteq> ''Collision Physics Data'' \<and> HavokGeometry_init (StrV nm) mt = Inr g"
  then show "read_geoms_from_havok (object_stream (root_node
          [resource_node other bodies,
           resource_node ''Collision Physics Data'' [body_node nm (Some mt), body_node nm' None]]))
        = Inr [g]"
    by (simp add: read_root_node extract_resource_node extract_body_node_data
        extract_body_node_no_data)
qed

theorem read_geoms_from_havok_spec_witness:
  "''Render Data'' \<noteq> ''Collision Physics Data'' \<and>
   HavokGeometry_init (StrV ''hull'') (example_mesh 0) = Inr (example_geometry (StrV ''hull'') 0) \<and>
   read_geoms_from_havok (object_stream (root_node
      [resource_node ''Render Data'' [],
       resource_node ''Collision Physics Data''
         [body_node ''hull'' (Some (example_mesh 0)), body_node ''wheel'' None]]))
     = Inr [example_geometry (StrV ''hull'') 0]"
  using read_geoms_from_havok_spec [of _ _ _ _ _ _ "''Render Data''" "''hull''" "example_mesh 0"
      "example_geometry (StrV ''hull'') 0" "[]" "''wheel''"]
    example_HavokGeometry_init [of 0 "StrV ''hull''"]
  by simp

subsection \<open>Extractor: failures are not isolated\<close>

lemma list_all2_left: "list_all2 R xs ys \<Longrightarrow> x \<in> set xs \<Longrightarrow> \<exists>y. R x y"
  by (auto simp: list_all2_conv_all_nth in_set_conv_nth)

lemma empty_mesh_fails: "HavokGeometry_init nm (Dict []) = Inl (KeyError ''domain'')"
  by (simp add: HavokGeometry_init_def domain_vector_def)

text \<open>
  Claim C6, as amended. A failure while constructing the geometry of one body
  is not isolated: \<open>read_geoms_from_havok\<close> fails as a whole and returns no
  list, so the geometries constructed before are lost, and the failing body is
  not named. When the first body of a matching resource entry is constructed
  and the second fails, the call fails with the exception of the second.
\<close>

theorem read_geoms_from_havok_aborts:
  "(fromIO f = Inr root_tag \<and> resource_handles root_tag = Inr vals \<and>
    b \<in> set (qualifying_bodies vals) \<and> body_name b = Some nm \<and> body_mesh_tree b = Some mt \<and>
    HavokGeometry_init nm mt = Inl e \<longrightarrow>
      (\<exists>e'. read_geoms_from_havok f = Inl e'))
   \<and> (HavokGeometry_init (StrV n1) mt1 = Inr g \<and> HavokGeometry_init (StrV n2) mt2 = Inl e2 \<longrightarrow>
        read_geoms_from_havok (object_stream (root_node
          [resource_node ''Collision Physics Data''
             [body_node n1 (Some mt1), body_node n2 (Some mt2)]])) = Inl e2)"
proof (intro conjI impI)
  assume a: "fromIO f = Inr root_tag \<and> resource_handles root_tag = Inr vals \<and>
    b \<in> set (qualifying_bodies vals) \<and> body_name b = Some nm \<and> body_mesh_tree b = Some mt \<and>
    HavokGeometry_init nm mt = Inl e"
  have "read_geoms_from_havok f \<noteq> Inr out" for out
  proof
    assume "read_geoms_from_havok f = Inr out"
    then obtain root_tag' vals' where "fromIO f = Inr root_tag'"
      "resource_handles root_tag' = Inr vals'"
      "list_all2 built_from (qualifying_bodies vals') out"
      by (rule read_geoms_from_havok_Inr)
    with a have "list_all2 built_from (qualifying_bodies vals) out" by simp
    from list_all2_left [OF this] a obtain g where "built_from b g" by blast
    with a show False by (simp add: built_from_def)
  qed
  then show "\<exists>e'. read_geoms_from_havok f = Inl e'"
    by (cases "read_geoms_from_havok f") auto
next
  assume "HavokGeometry_init (StrV n1) mt1 = Inr g \<and> HavokGeometry_init (StrV n2) mt2 = Inl e2"
  then show "read_geoms_from_havok (object_stream (root_node
          [resource_node ''Collision Physics Data''
             [body_node n1 (Some mt1), body_node n2 (Some mt2)]])) = Inl e2"
    by (simp add: read_root_node extract_resource_node extract_body_node_data)
qed

theorem read_geoms_from_havok_aborts_witness:
  "HavokGeometry_init (StrV ''hull'') (example_mesh 0) = Inr (example_geometry (StrV ''hull'') 0) \<and>
   HavokGeometry_init (StrV ''turret'') (Dict []) = Inl (KeyError ''domain'') \<and>
   read_geoms_from_havok (object_stream (root_node
      [resource_node ''Collision Physics Data''
         [body_node ''hull'' (Some (example_mesh 0)), body_node ''turret'' (Some (Dict []))]]))
     = Inl (KeyError ''domain'')"
  using read_geoms_from_havok_aborts [of _ _ _ _ _ _ _ "''hull''" "example_mesh 0"
      "example_geometry (StrV ''hull'') 0" "''turret''" "Dict []" "KeyError ''domain''"]
    example_HavokGeometry_init [of 0 "StrV ''hull''"] empty_mesh_fails [of "StrV ''turret''"]
  by simp

text \<open>
  The claim as stated fails: of two bodies, the first well formed and the
  second with an empty mesh tree, the extractor returns neither; it raises the
  \<^verbatim>\<open>KeyError\<close> of the second.
\<close>

theorem read_geoms_from_havok_isolation_counterexample:
  "read_geoms_from_havok (object_stream (root_node
      [resource_node ''Collision Physics Data''
         [body_node ''hull'' (Some (example_mesh 0)), body_node ''turret'' (Some (Dict []))]]))
     = Inl (KeyError ''domain'') \<and>
   HavokGeometry_init (StrV ''hull'') (example_mesh 0) = Inr (example_geometry (StrV ''hull'') 0)"
  using example_HavokGeometry_init [of 0 "StrV ''hull''"] empty_mesh_fails [of "StrV ''turret''"]
  by (simp add: read_root_node extract_resource_node extract_body_node_data)

end
